theory Spec2Isabelle
  imports Main "HOL-Library.AList"
begin

section \<open>Request client: in-flight deduplication (api-client.ts)\<close>

text \<open>
  \<^verbatim>\<open>TypeSafeAPIClient\<close> keeps \<^verbatim>\<open>requestDeduplication\<close>, a map from a dedupe key to
  the promise of the call in flight. Promises are shared objects, so the model keeps an
  explicit promise store: a promise is its index in \<open>promises\<close>, stored with the key
  it was created for and its outcome (\<open>None\<close> while unsettled). \<open>timers\<close> holds the
  keys of the pending \<^verbatim>\<open>setTimeout(() => delete(key), 1000)\<close> callbacks, and
  \<open>transport\<close> logs every invocation of \<^verbatim>\<open>requestFn\<close> (one underlying call each)
  with the promise it produced.
\<close>

type_synonym key = string

datatype 'a outcome = Fulfilled 'a | Rejected string

record 'a client =
  requestDeduplication :: "key \<rightharpoonup> nat"
  promises :: "(key \<times> 'a outcome option) list"
  timers :: "key list"
  transport :: "(key \<times> nat) list"

definition new_client :: "'a client" where
  "new_client = \<lparr>requestDeduplication = Map.empty, promises = [], timers = [], transport = []\<rparr>"

text \<open>
  \<^verbatim>\<open>deduplicatedRequest(key, requestFn)\<close>: when the map has the key, the stored promise
  is returned and \<^verbatim>\<open>requestFn\<close> is not called; otherwise \<^verbatim>\<open>requestFn()\<close> is
  called once and its promise stored under the key. The result is the promise the caller
  awaits, with the new state.
\<close>

definition deduplicatedRequest :: "key \<Rightarrow> 'a client \<Rightarrow> nat \<times> 'a client" where
  "deduplicatedRequest k c =
     (case requestDeduplication c k of
        Some p \<Rightarrow> (p, c)
      | None \<Rightarrow>
          (let p = length (promises c)
           in (p, c\<lparr>requestDeduplication := (requestDeduplication c)(k \<mapsto> p),
                    promises := promises c @ [(k, None)],
                    transport := transport c @ [(k, p)]\<rparr>)))"

text \<open>
  The promise \<open>p\<close> settles with outcome \<open>r\<close>. A promise settles once. The creating
  caller's \<^verbatim>\<open>finally\<close> block then schedules the removal of the key after 1000 ms.
\<close>

definition settle :: "nat \<Rightarrow> 'a outcome \<Rightarrow> 'a client \<Rightarrow> 'a client" where
  "settle p r c =
     (if p < length (promises c) \<and> snd (promises c ! p) = None
      then c\<lparr>promises := (promises c)[p := (fst (promises c ! p), Some r)],
              timers := timers c @ [fst (promises c ! p)]\<rparr>
      else c)"

text \<open>A pending removal timer for \<open>k\<close> fires: \<^verbatim>\<open>this.requestDeduplication.delete(key)\<close>.\<close>

definition timer_fires :: "key \<Rightarrow> 'a client \<Rightarrow> 'a client" where
  "timer_fires k c =
     (if k \<in> set (timers c)
      then c\<lparr>timers := remove1 k (timers c),
              requestDeduplication := (requestDeduplication c)(k := None)\<rparr>
      else c)"

text \<open>\<^verbatim>\<open>clearCache()\<close>, also called by \<^verbatim>\<open>dispose()\<close>: the map is cleared.\<close>

definition clearCache :: "'a client \<Rightarrow> 'a client" where
  "clearCache c = c\<lparr>requestDeduplication := Map.empty\<rparr>"

text \<open>What a caller awaiting promise \<open>p\<close> observes: nothing yet, or the outcome.\<close>

definition observe :: "'a client \<Rightarrow> nat \<Rightarrow> 'a outcome option" where
  "observe c p = (if p < length (promises c) then snd (promises c ! p) else None)"

text \<open>Everything that can happen to a client between two calls.\<close>

datatype 'a client_event =
    Call key
  | Settle nat "'a outcome"
  | TimerFires key
  | ClearCache

fun client_step :: "'a client_event \<Rightarrow> 'a client \<Rightarrow> 'a client" where
  "client_step (Call k) c = snd (deduplicatedRequest k c)"
| "client_step (Settle p r) c = settle p r c"
| "client_step (TimerFires k) c = timer_fires k c"
| "client_step ClearCache c = clearCache c"

fun client_run :: "'a client_event list \<Rightarrow> 'a client \<Rightarrow> 'a client" where
  "client_run [] c = c"
| "client_run (e # es) c = client_run es (client_step e c)"

fun is_clear :: "'a client_event \<Rightarrow> bool" where
  "is_clear ClearCache = True"
| "is_clear _ = False"

text \<open>
  The invariant of a client whose cache was never cleared: an unsettled promise is the
  entry of its key, an entry points to a promise of its key, a pending removal timer
  belongs to a key whose promises are all settled and whose entry is still there, there
  is at most one timer per key, and every promise comes from exactly one transport call.
\<close>

definition pending_registered :: "'a client \<Rightarrow> bool" where
  "pending_registered c \<longleftrightarrow>
     (\<forall>p < length (promises c). snd (promises c ! p) = None \<longrightarrow>
          requestDeduplication c (fst (promises c ! p)) = Some p)"

definition entries_wf :: "'a client \<Rightarrow> bool" where
  "entries_wf c \<longleftrightarrow>
     (\<forall>k p. requestDeduplication c k = Some p \<longrightarrow>
          p < length (promises c) \<and> fst (promises c ! p) = k)"

definition timers_wf :: "'a client \<Rightarrow> bool" where
  "timers_wf c \<longleftrightarrow>
     (\<forall>k \<in> set (timers c). requestDeduplication c k \<noteq> None \<and>
          (\<forall>p < length (promises c). fst (promises c ! p) = k \<longrightarrow> snd (promises c ! p) \<noteq> None))"

definition transport_wf :: "'a client \<Rightarrow> bool" where
  "transport_wf c \<longleftrightarrow> transport c = zip (map fst (promises c)) [0 ..< length (promises c)]"

definition client_inv :: "'a client \<Rightarrow> bool" where
  "client_inv c \<longleftrightarrow>
     pending_registered c \<and> entries_wf c \<and> timers_wf c \<and> distinct (timers c) \<and> transport_wf c"

subsection \<open>Deduplication: invariant and claim C1\<close>


lemma client_inv_new: "client_inv new_client"
  by (simp add: client_inv_def new_client_def pending_registered_def entries_wf_def timers_wf_def transport_wf_def)

lemma dedup_hit: "requestDeduplication c k = Some p \<Longrightarrow> deduplicatedRequest k c = (p, c)"
  by (simp add: deduplicatedRequest_def)

lemma dedup_miss: "requestDeduplication c k = None \<Longrightarrow> deduplicatedRequest k c =
   (length (promises c), c\<lparr>requestDeduplication := (requestDeduplication c)(k \<mapsto> length (promises c)),
                    promises := promises c @ [(k, None)],
                    transport := transport c @ [(k, length (promises c))]\<rparr>)"
  by (simp add: deduplicatedRequest_def Let_def)

lemma client_inv_dedup:
  assumes "client_inv c" shows "client_inv (snd (deduplicatedRequest k c))"
proof (cases "requestDeduplication c k")
  case (Some p)
  then show ?thesis using assms by (simp add: dedup_hit)
next
  case None
  let ?c' = "snd (deduplicatedRequest k c)"
  from assms have a: "pending_registered c" "entries_wf c" "timers_wf c" "distinct (timers c)" "transport_wf c"
    by (simp_all add: client_inv_def)
  have nt: "k \<notin> set (timers c)" using a(3) None by (auto simp: timers_wf_def)
  have 1: "pending_registered ?c'"
    using a(1) None unfolding pending_registered_def
    by (auto simp: dedup_miss nth_append less_Suc_eq)
  have 2: "entries_wf ?c'"
    using a(2) None unfolding entries_wf_def
    by (auto simp: dedup_miss nth_append less_Suc_eq)
  have 3: "timers_wf ?c'"
    using a(3) nt None unfolding timers_wf_def
    by (auto simp: dedup_miss nth_append less_Suc_eq)
  have 4: "distinct (timers ?c')" using a(4) None by (simp add: dedup_miss)
  have 5: "transport_wf ?c'" using a(5) None by (simp add: dedup_miss transport_wf_def)
  show ?thesis using 1 2 3 4 5 by (simp add: client_inv_def)
qed


lemma fst_nth_settled: "fst (xs[p := (fst (xs ! p), v)] ! q) = fst (xs ! q)"
  by (cases "p < length xs") (simp_all add: nth_list_update list_update_beyond)

lemma snd_nth_settled:
  "p < length xs \<Longrightarrow> snd (xs[p := (a, v)] ! q) = (if q = p then v else snd (xs ! q))"
  by (simp add: nth_list_update)

lemma client_inv_settle:
  assumes "client_inv c" shows "client_inv (settle p r c)"
proof (cases "p < length (promises c) \<and> snd (promises c ! p) = None")
  case False
  then show ?thesis using assms by (auto simp: settle_def)
next
  case True
  let ?k = "fst (promises c ! p)"
  let ?c' = "settle p r c"
  have c': "?c' = c\<lparr>promises := (promises c)[p := (?k, Some r)], timers := timers c @ [?k]\<rparr>"
    using True by (simp add: settle_def)
  from assms have a: "pending_registered c" "entries_wf c" "timers_wf c" "distinct (timers c)" "transport_wf c"
    by (simp_all add: client_inv_def)
  have reg: "requestDeduplication c ?k = Some p"
    using a(1) True by (simp add: pending_registered_def)
  have nt: "?k \<notin> set (timers c)"
    using a(3) True unfolding timers_wf_def by blast
  have 1: "pending_registered ?c'"
    using a(1) True unfolding pending_registered_def c'
    by (simp add: fst_nth_settled snd_nth_settled)
  have 2: "entries_wf ?c'"
    using a(2) unfolding entries_wf_def c'
    by (simp add: fst_nth_settled)
  have only: "\<And>q. q < length (promises c) \<Longrightarrow> fst (promises c ! q) = ?k \<Longrightarrow> snd (promises c ! q) = None \<Longrightarrow> q = p"
    using a(1) reg unfolding pending_registered_def by fastforce
  have 3: "timers_wf ?c'"
    using a(3) reg only True unfolding timers_wf_def c'
    by (auto simp: fst_nth_settled snd_nth_settled)
  have 4: "distinct (timers ?c')" using a(4) nt by (simp add: c')
  have "map fst ((promises c)[p := (?k, Some r)]) = map fst (promises c)"
    using True by (simp add: map_update list_update_same_conv)
  then have 5: "transport_wf ?c'" using a(5) by (simp add: c' transport_wf_def)
  show ?thesis using 1 2 3 4 5 by (simp add: client_inv_def)
qed

lemma client_inv_timer:
  assumes "client_inv c" shows "client_inv (timer_fires k c)"
proof (cases "k \<in> set (timers c)")
  case False
  then show ?thesis using assms by (simp add: timer_fires_def)
next
  case True
  let ?c' = "timer_fires k c"
  have c': "?c' = c\<lparr>timers := remove1 k (timers c),
              requestDeduplication := (requestDeduplication c)(k := None)\<rparr>"
    using True by (simp add: timer_fires_def)
  from assms have a: "pending_registered c" "entries_wf c" "timers_wf c" "distinct (timers c)" "transport_wf c"
    by (simp_all add: client_inv_def)
  have settled: "\<And>q. q < length (promises c) \<Longrightarrow> fst (promises c ! q) = k \<Longrightarrow> snd (promises c ! q) \<noteq> None"
    using a(3) True unfolding timers_wf_def by blast
  have 1: "pending_registered ?c'"
    using a(1) settled unfolding pending_registered_def c' by auto
  have 2: "entries_wf ?c'"
    using a(2) unfolding entries_wf_def c' by auto
  have 3: "timers_wf ?c'"
    using a(3) a(4) unfolding timers_wf_def c' by auto
  have 4: "distinct (timers ?c')" using a(4) by (simp add: c')
  have 5: "transport_wf ?c'" using a(5) by (simp add: c' transport_wf_def)
  show ?thesis using 1 2 3 4 5 by (simp add: client_inv_def)
qed

lemma client_inv_step: "client_inv c \<Longrightarrow> \<not> is_clear e \<Longrightarrow> client_inv (client_step e c)"
  by (cases e) (simp_all add: client_inv_dedup client_inv_settle client_inv_timer)

lemma client_inv_run:
  "client_inv c \<Longrightarrow> \<forall>e \<in> set es. \<not> is_clear e \<Longrightarrow> client_inv (client_run es c)"
  by (induction es arbitrary: c) (simp_all add: client_inv_step)

lemma step_keeps_keys:
  "p < length (promises c) \<Longrightarrow>
     p < length (promises (client_step e c)) \<and> fst (promises (client_step e c) ! p) = fst (promises c ! p)"
proof (cases e)
  case (Call k)
  then show "p < length (promises c) \<Longrightarrow> ?thesis"
    by (cases "requestDeduplication c k") (simp_all add: dedup_hit dedup_miss nth_append)
next
  case (Settle q r)
  then show "p < length (promises c) \<Longrightarrow> ?thesis" by (simp add: settle_def nth_list_update)
next
  case (TimerFires k)
  then show "p < length (promises c) \<Longrightarrow> ?thesis" by (simp add: timer_fires_def)
next
  case ClearCache
  then show "p < length (promises c) \<Longrightarrow> ?thesis" by (simp add: clearCache_def)
qed

lemma run_keeps_keys:
  "p < length (promises c) \<Longrightarrow>
     p < length (promises (client_run es c)) \<and> fst (promises (client_run es c) ! p) = fst (promises c ! p)"
proof (induction es arbitrary: c)
  case Nil
  then show ?case by simp
next
  case (Cons e es)
  from step_keeps_keys[OF Cons.prems, of e] Cons.IH[of "client_step e c"]
  show ?case by simp
qed

lemma dedup_result_key:
  assumes "entries_wf c" "deduplicatedRequest k c = (p, c')"
  shows "p < length (promises c') \<and> fst (promises c' ! p) = k"
proof (cases "requestDeduplication c k")
  case None
  then show ?thesis using assms(2) by (auto simp: dedup_miss)
next
  case (Some q)
  then show ?thesis using assms by (auto simp: dedup_hit entries_wf_def)
qed


lemma filter_zip_upt:
  "p < length xs \<Longrightarrow> filter (\<lambda>t. snd t = p) (zip (map f xs) [0 ..< length xs]) = [(f (xs ! p), p)]"
proof (induction xs rule: rev_induct)
  case Nil
  then show ?case by simp
next
  case (snoc x xs)
  have none: "\<And>q. length xs \<le> q \<Longrightarrow> filter (\<lambda>t. snd t = q) (zip (map f xs) [0 ..< length xs]) = []"
    by (auto simp: filter_empty_conv dest!: set_zip_rightD)
  show ?case
  proof (cases "p < length xs")
    case True
    then show ?thesis using snoc.IH by (simp add: nth_append)
  next
    case False
    then have "p = length xs" using snoc.prems by simp
    then show ?thesis using none[of p] by (simp add: nth_append)
  qed
qed

text \<open>
  Claim C1, as amended. Take any history of calls, settlements and removal timers in
  which the cache is never cleared, then a call with key \<open>k\<close> that is given promise
  \<open>p1\<close>, then any further such history after which \<open>p1\<close> is still unsettled. A
  second call with key \<open>k\<close> is then given the same promise \<open>p1\<close> and leaves the
  client unchanged, so it issues no transport call: exactly one transport call stands
  behind the shared promise, and whatever happens later both callers observe the same
  outcome.
\<close>

theorem dedup_attaches_second_caller:
  assumes no_clear1: "\<forall>e \<in> set es1. \<not> is_clear e"
      and no_clear2: "\<forall>e \<in> set es2. \<not> is_clear e"
      and first: "deduplicatedRequest k (client_run es1 new_client) = (p1, c1)"
      and unsettled: "observe (client_run es2 c1) p1 = None"
      and second: "deduplicatedRequest k (client_run es2 c1) = (p2, c2)"
  shows "p2 = p1 \<and> c2 = client_run es2 c1
         \<and> filter (\<lambda>t. snd t = p1) (transport c2) = [(k, p1)]
         \<and> (\<forall>es3. observe (client_run es3 c2) p2 = observe (client_run es3 c2) p1)"
proof -
  let ?ca = "client_run es1 new_client"
  let ?cb = "client_run es2 c1"
  have inv0: "client_inv ?ca" using client_inv_new no_clear1 by (rule client_inv_run)
  have "client_inv (snd (deduplicatedRequest k ?ca))" using inv0 by (rule client_inv_dedup)
  then have inv1: "client_inv c1" using first by simp
  have inv: "client_inv ?cb" using inv1 no_clear2 by (rule client_inv_run)
  have "entries_wf ?ca" using inv0 by (simp add: client_inv_def)
  from dedup_result_key[OF this first]
  have k1: "p1 < length (promises c1)" "fst (promises c1 ! p1) = k" by simp_all
  from run_keeps_keys[OF k1(1), of es2]
  have k2: "p1 < length (promises ?cb)" "fst (promises ?cb ! p1) = k" using k1(2) by simp_all
  have "snd (promises ?cb ! p1) = None" using unsettled k2(1) by (simp add: observe_def)
  moreover have "pending_registered ?cb" using inv by (simp add: client_inv_def)
  ultimately have reg: "requestDeduplication ?cb k = Some p1"
    using k2 by (auto simp: pending_registered_def)
  then have res: "p2 = p1" "c2 = ?cb" using second by (simp_all add: dedup_hit)
  have tw: "transport ?cb = zip (map fst (promises ?cb)) [0 ..< length (promises ?cb)]"
    using inv by (simp add: client_inv_def transport_wf_def)
  have "filter (\<lambda>t. snd t = p1) (transport ?cb) = [(k, p1)]"
  proof -
    have "filter (\<lambda>t. snd t = p1) (zip (map fst (promises ?cb)) [0 ..< length (promises ?cb)])
          = [(fst (promises ?cb ! p1), p1)]"
      using k2(1) by (rule filter_zip_upt)
    then show ?thesis using tw k2(2) by simp
  qed
  then show ?thesis using res by simp
qed

theorem dedup_attaches_second_caller_witness:
  "fst (deduplicatedRequest ''health''
          (client_run [Settle 0 (Fulfilled 7), TimerFires ''sketches-all'']
             (snd (deduplicatedRequest ''health''
                (client_run [Call ''sketches-all''] (new_client :: nat client)))))) = 1
   \<and> filter (\<lambda>t. snd t = 1)
        (transport (snd (deduplicatedRequest ''health''
          (client_run [Settle 0 (Fulfilled 7), TimerFires ''sketches-all'']
             (snd (deduplicatedRequest ''health''
                (client_run [Call ''sketches-all''] (new_client :: nat client)))))))) = [(''health'', 1)]"
proof -
  let ?es1 = "[Call ''sketches-all''] :: nat client_event list"
  let ?es2 = "[Settle 0 (Fulfilled 7), TimerFires ''sketches-all''] :: nat client_event list"
  obtain c1 where 1: "deduplicatedRequest ''health'' (client_run ?es1 new_client) = (1, c1)"
    by (simp add: deduplicatedRequest_def new_client_def)
  obtain p2 c2 where 2: "deduplicatedRequest ''health'' (client_run ?es2 c1) = (p2, c2)"
    by force
  have c1: "c1 = \<lparr>requestDeduplication = [''sketches-all'' \<mapsto> 0, ''health'' \<mapsto> 1],
                  promises = [(''sketches-all'', None), (''health'', None)], timers = [],
                  transport = [(''sketches-all'', 0), (''health'', 1)]\<rparr>"
    using 1 by (simp add: deduplicatedRequest_def new_client_def)
  have u: "observe (client_run ?es2 c1) 1 = None"
    by (simp add: c1 settle_def timer_fires_def observe_def)
  have n1: "\<forall>e \<in> set ?es1. \<not> is_clear e" by simp
  have n2: "\<forall>e \<in> set ?es2. \<not> is_clear e" by simp
  from dedup_attaches_second_caller[OF n1 n2 1 u 2]
  have "p2 = 1" and "filter (\<lambda>t. snd t = 1) (transport c2) = [(''health'', 1)]"
    by blast+
  then show ?thesis using 1 2 by simp
qed

text \<open>
  Claim C1 as stated fails when \<^verbatim>\<open>clearCache()\<close> (or \<^verbatim>\<open>dispose()\<close>) runs between
  the two calls: the first \<^verbatim>\<open>getHealth()\<close> is still unsettled, yet the second is
  given a new promise and a second transport call is issued.
\<close>

theorem dedup_after_clearCache_counterexample:
  "fst (deduplicatedRequest ''health'' (new_client :: nat client)) = 0
   \<and> observe (client_run [Call ''health'', ClearCache] (new_client :: nat client)) 0 = None
   \<and> fst (deduplicatedRequest ''health''
            (client_run [Call ''health'', ClearCache] (new_client :: nat client))) = 1
   \<and> transport (snd (deduplicatedRequest ''health''
            (client_run [Call ''health'', ClearCache] (new_client :: nat client))))
       = [(''health'', 0), (''health'', 1)]"
  by (simp add: deduplicatedRequest_def new_client_def clearCache_def observe_def)



section \<open>Request client: error classification and the rate-limit retry (api-client.ts)\<close>

text \<open>
  The response interceptor installed by \<^verbatim>\<open>setupInterceptors\<close> sees every response of
  the axios instance \<^verbatim>\<open>this.client\<close>. axios itself is a library outside the
  repository; what the model takes from it is that an instance passes the outcome of
  every \<^verbatim>\<open>this.client.request(config)\<close> through the instance's interceptors, and that
  the outcome of one transport attempt is either a response that resolves or an
  \<^verbatim>\<open>AxiosError\<close>. The \<^verbatim>\<open>timestamp\<close> of an \<^verbatim>\<open>APIError\<close> (the clock) is left out.
\<close>

datatype body = JsonObject (error_field: "string option") (message_field: "string option")
                  (code_field: "string option")
              | OtherData

record response =
  status :: nat
  statusText :: string
  retry_after :: "string option"
  data :: body

record AxiosError =
  err_message :: string
  err_code :: "string option"
  err_response :: "response option"
  err_request :: bool

datatype api_code = UNKNOWN_ERROR | HTTP nat | NETWORK_ERROR | BodyCode string

datatype details = NoDetails | ResponseDetails nat string body | TimeoutDetails bool

record APIError =
  code :: api_code
  message :: string
  details :: details

text \<open>JavaScript's \<^verbatim>\<open>a || b\<close> on a string that may be undefined: empty counts as absent.\<close>

definition js_or :: "string option \<Rightarrow> string \<Rightarrow> string" where
  "js_or a b = (case a of None \<Rightarrow> b | Some s \<Rightarrow> if s = [] then b else s)"

definition enhanceError :: "AxiosError \<Rightarrow> APIError" where
  "enhanceError e =
     (case err_response e of
        Some r \<Rightarrow>
          (case data r of
             JsonObject er ms cd \<Rightarrow>
               \<lparr>code = (case cd of None \<Rightarrow> HTTP (status r)
                               | Some c \<Rightarrow> if c = [] then HTTP (status r) else BodyCode c),
                message = js_or er (js_or ms (err_message e)),
                details = ResponseDetails (status r) (statusText r) (data r)\<rparr>
           | OtherData \<Rightarrow>
               \<lparr>code = HTTP (status r), message = err_message e,
                details = ResponseDetails (status r) (statusText r) (data r)\<rparr>)
      | None \<Rightarrow>
          if err_request e
          then \<lparr>code = NETWORK_ERROR, message = ''No response from server'',
                details = TimeoutDetails (err_code e = Some ''ECONNABORTED'')\<rparr>
          else \<lparr>code = UNKNOWN_ERROR, message = err_message e, details = NoDetails\<rparr>)"

subsection \<open>\<^verbatim>\<open>parseInt\<close> and the retry delay\<close>

text \<open>
  \<^verbatim>\<open>parseInt(s)\<close> without a radix: leading white space is skipped, a sign is read, a
  \<^verbatim>\<open>0x\<close> prefix selects radix 16, and the longest prefix of digits is the value;
  with no digit the result is \<^verbatim>\<open>NaN\<close>, here \<open>None\<close>. A header value is a Latin-1
  string, one \<open>char\<close> for each code unit; the white space of JavaScript below 256 is
  tab, line feed, vertical tab, form feed, carriage return, space and the no-break space
  U+00A0. Numbers are JavaScript doubles; the model computes with integers, which agrees
  with them below \<open>2^53\<close>.
\<close>

definition is_white :: "char \<Rightarrow> bool" where
  "is_white c \<longleftrightarrow> (of_char c :: nat) \<in> {9, 10, 11, 12, 13, 32, 160}"

definition digit_value :: "nat \<Rightarrow> char \<Rightarrow> nat option" where
  "digit_value radix c =
     (let n = (of_char c :: nat);
          v = (if 48 \<le> n \<and> n \<le> 57 then Some (n - 48)
               else if 97 \<le> n \<and> n \<le> 122 then Some (n - 87)
               else if 65 \<le> n \<and> n \<le> 90 then Some (n - 55)
               else None)
      in case v of None \<Rightarrow> None | Some d \<Rightarrow> if d < radix then Some d else None)"

fun read_digits :: "nat \<Rightarrow> nat option \<Rightarrow> string \<Rightarrow> nat option" where
  "read_digits radix acc [] = acc"
| "read_digits radix acc (c # cs) =
     (case digit_value radix c of
        None \<Rightarrow> acc
      | Some d \<Rightarrow> read_digits radix (Some ((case acc of None \<Rightarrow> 0 | Some a \<Rightarrow> a) * radix + d)) cs)"

definition parseInt :: "string \<Rightarrow> int option" where
  "parseInt s =
     (let s1 = dropWhile is_white s;
          sign = (case s1 of c # _ \<Rightarrow> if c = CHR ''-'' then - 1 else (1::int) | [] \<Rightarrow> 1);
          s2 = (case s1 of c # cs \<Rightarrow> if c = CHR ''-'' \<or> c = CHR ''+'' then cs else s1 | [] \<Rightarrow> s1);
          hex = (take 2 s2 = ''0x'' \<or> take 2 s2 = ''0X'')
      in map_option (\<lambda>n. sign * int n)
           (if hex then read_digits 16 None (drop 2 s2) else read_digits 10 None s2))"

text \<open>
  The delay of \<^verbatim>\<open>handleRateLimit\<close>:
  \<^verbatim>\<open>retryAfter ? parseInt(retryAfter) * 1000 : Math.pow(2, 1) * 1000\<close>. An absent header
  and an empty one are both falsy. \<open>None\<close> is the delay \<^verbatim>\<open>NaN\<close>.
\<close>

definition rate_limit_delay :: "string option \<Rightarrow> int option" where
  "rate_limit_delay h =
     (case h of
        None \<Rightarrow> Some 2000
      | Some v \<Rightarrow> if v = [] then Some 2000 else map_option (\<lambda>n. n * 1000) (parseInt v))"

subsection \<open>One request through the interceptors\<close>

datatype attempt = Resolved response | Failed AxiosError

datatype client_effect = TransportCall | Sleep "int option" | TriggerFallbackMode

definition rate_limited :: "attempt \<Rightarrow> bool" where
  "rate_limited a =
     (case a of Resolved r \<Rightarrow> False
      | Failed e \<Rightarrow> (case err_response e of None \<Rightarrow> False | Some r \<Rightarrow> status r = 429))"

definition delay_of :: "attempt \<Rightarrow> int option" where
  "delay_of a =
     (case a of Resolved r \<Rightarrow> None
      | Failed e \<Rightarrow> (case err_response e of None \<Rightarrow> None | Some r \<Rightarrow> rate_limit_delay (retry_after r)))"

text \<open>
  \<open>request as\<close> is \<^verbatim>\<open>this.client.request(config)\<close> when the successive transport
  attempts for this request turn out as \<open>as\<close>: the effects in order and what the caller
  receives. A 429 is answered by \<^verbatim>\<open>handleRateLimit\<close>: wait, then
  \<^verbatim>\<open>this.client.request(error.config)\<close> again, on the same instance and so through
  the same interceptor. When the transport gives no further outcome the promise stays
  pending: \<open>None\<close>.
\<close>

fun request :: "attempt list \<Rightarrow> (client_effect list \<times> (APIError + response)) option" where
  "request [] = None"
| "request (Resolved r # rest) = Some ([TransportCall], Inr r)"
| "request (Failed e # rest) =
     (case err_response e of
        None \<Rightarrow> Some ([TransportCall], Inl (enhanceError e))
      | Some r \<Rightarrow>
          if status r = 503 then Some ([TransportCall, TriggerFallbackMode], Inl (enhanceError e))
          else if status r = 429 then
            (case request rest of
               None \<Rightarrow> None
             | Some (fx, res) \<Rightarrow> Some (TransportCall # Sleep (rate_limit_delay (retry_after r)) # fx, res))
          else Some ([TransportCall], Inl (enhanceError e)))"

text \<open>
  The behaviour claim C2 describes, written from its words: after a 429 exactly one
  retry, whose outcome is surfaced as it is, rate-limited or not.
\<close>

fun surface :: "attempt \<Rightarrow> client_effect list \<times> (APIError + response)" where
  "surface (Resolved r) = ([TransportCall], Inr r)"
| "surface (Failed e) =
     (case err_response e of
        None \<Rightarrow> ([TransportCall], Inl (enhanceError e))
      | Some r \<Rightarrow> if status r = 503 then ([TransportCall, TriggerFallbackMode], Inl (enhanceError e))
                  else ([TransportCall], Inl (enhanceError e)))"

fun request_single_retry :: "attempt list \<Rightarrow> (client_effect list \<times> (APIError + response)) option" where
  "request_single_retry [] = None"
| "request_single_retry [a] = (if rate_limited a then None else Some (surface a))"
| "request_single_retry (a # b # rest) =
     (if rate_limited a
      then Some (TransportCall # Sleep (delay_of a) # fst (surface b), snd (surface b))
      else Some (surface a))"

definition too_many_requests :: "string option \<Rightarrow> attempt" where
  "too_many_requests h =
     Failed \<lparr>err_message = ''Request failed with status code 429'', err_code = Some ''ERR_BAD_REQUEST'',
             err_response = Some \<lparr>status = 429, statusText = ''Too Many Requests'',
                                  retry_after = h, data = OtherData\<rparr>,
             err_request = True\<rparr>"

definition ok_response :: attempt where
  "ok_response = Resolved \<lparr>status = 200, statusText = ''OK'', retry_after = None, data = OtherData\<rparr>"

subsection \<open>Claim C2\<close>


lemma request_not_limited: "\<not> rate_limited b \<Longrightarrow> request (b # rest) = Some (surface b)"
  by (cases b) (auto simp: rate_limited_def split: option.splits)

lemma request_limited:
  "rate_limited a \<Longrightarrow> request (a # rest) =
     (case request rest of None \<Rightarrow> None
      | Some (fx, res) \<Rightarrow> Some (TransportCall # Sleep (delay_of a) # fx, res))"
  by (cases a) (auto simp: rate_limited_def delay_of_def split: option.splits)

text \<open>
  Claim C2, as amended. Every 429 response is answered by one automatic retry, after
  \<^verbatim>\<open>parseInt(retry-after) * 1000\<close> ms when the header is present and not empty and
  after 2000 ms when it is absent. The retry runs through the same interceptor, so a
  retry that is rate-limited again is retried again in the same way: after any run
  \<open>as\<close> of 429 responses the caller receives what a request answered by \<open>b\<close>, the
  first outcome that is not a 429, gives, after one wait per 429. With a single 429
  that is exactly one retry.
\<close>

theorem rate_limit_retries_until_not_limited:
  assumes "\<forall>a \<in> set as. rate_limited a" and "\<not> rate_limited b"
  shows "(\<exists>fx res. request [b] = Some (fx, res)
            \<and> request (as @ b # rest) =
                Some (concat (map (\<lambda>a. [TransportCall, Sleep (delay_of a)]) as) @ fx, res))
         \<and> rate_limit_delay None = Some 2000
         \<and> (h \<noteq> [] \<and> parseInt h = Some n \<longrightarrow> rate_limit_delay (Some h) = Some (n * 1000))"
proof -
  have "request (as @ b # rest) =
           Some (concat (map (\<lambda>a. [TransportCall, Sleep (delay_of a)]) as) @ fst (surface b),
                 snd (surface b))"
    using assms
  proof (induction as)
    case Nil
    then show ?case by (simp add: request_not_limited)
  next
    case (Cons a as)
    then show ?case by (simp add: request_limited)
  qed
  moreover have "request [b] = Some (fst (surface b), snd (surface b))"
    using assms(2) by (simp add: request_not_limited)
  ultimately show ?thesis by (simp add: rate_limit_delay_def)
qed

theorem rate_limit_retries_witness:
  "request [too_many_requests (Some ''2''), ok_response] =
     Some ([TransportCall, Sleep (Some 2000), TransportCall],
           Inr \<lparr>status = 200, statusText = ''OK'', retry_after = None, data = OtherData\<rparr>)
   \<and> rate_limit_delay (Some ''2'') = Some 2000"
proof -
  have l: "\<forall>a \<in> set [too_many_requests (Some ''2'')]. rate_limited a"
    by (simp add: rate_limited_def too_many_requests_def)
  have n: "\<not> rate_limited ok_response" by (simp add: rate_limited_def ok_response_def)
  have p: "parseInt ''2'' = Some 2" by (simp add: parseInt_def is_white_def digit_value_def)
  from rate_limit_retries_until_not_limited[OF l n, of "[]" "''2''" 2] p
  show ?thesis
    by (auto simp: delay_of_def too_many_requests_def ok_response_def)
qed

text \<open>
  Claim C2 as stated fails when the retry is itself rate-limited: with the responses
  429, 429, 200 the client retries twice and the caller sees the success, where the
  claim's single retry would surface the second 429.
\<close>

theorem rate_limited_retry_is_retried_counterexample:
  "request [too_many_requests (Some ''2''), too_many_requests None, ok_response] =
     Some ([TransportCall, Sleep (Some 2000), TransportCall, Sleep (Some 2000), TransportCall],
           Inr \<lparr>status = 200, statusText = ''OK'', retry_after = None, data = OtherData\<rparr>)
   \<and> request_single_retry [too_many_requests (Some ''2''), too_many_requests None, ok_response] =
     Some ([TransportCall, Sleep (Some 2000), TransportCall],
           Inl \<lparr>code = HTTP 429, message = ''Request failed with status code 429'',
                details = ResponseDetails 429 ''Too Many Requests'' OtherData\<rparr>)"
  by (simp add: too_many_requests_def ok_response_def rate_limit_delay_def parseInt_def
      is_white_def digit_value_def rate_limited_def delay_of_def enhanceError_def)



section \<open>Connection manager (TypeSafeWebSocketManager)\<close>

text \<open>
  The manager keeps per-key maps for the socket, the status, the reconnect counter, the
  timers and the message queue. Sockets are objects shared between the manager's map and
  the event handlers that closed over them, so the model keeps a socket store: a socket
  is its index in \<open>sockets\<close>. The \<^verbatim>\<open>ws\<close> library, the timers and the clock are
  outside the repository. From \<^verbatim>\<open>ws\<close> the model takes the \<^verbatim>\<open>readyState\<close> of a
  socket (open when \<^verbatim>\<open>'open'\<close> is emitted, closed when \<^verbatim>\<open>'close'\<close> is, closing after
  \<^verbatim>\<open>close()\<close>) and that \<^verbatim>\<open>send\<close> either hands the frame to the network or throws;
  which calls throw is the environment's choice, given per socket as \<open>send_throws\<close>:
  one entry for each coming call of \<^verbatim>\<open>send\<close>, \<open>True\<close> when it throws; calls past
  the end of the list succeed. Identifiers and times (\<^verbatim>\<open>uuidv4()\<close>, \<^verbatim>\<open>Date.now()\<close>)
  are inputs of the operations. Numbers are JavaScript doubles; the model computes with
  integers, so the configuration holds integers. \<open>trace\<close> holds the notifications and
  the console lines in the order they are produced.

  \<^verbatim>\<open>emit\<close> only records the notification. This rests on two assumptions about the
  listeners, which are outside the repository. An \<^verbatim>\<open>'error'\<close> listener is registered:
  without one \<^verbatim>\<open>EventEmitter.emit('error', ...)\<close> itself throws. And listeners do not
  throw, with one exception that the code provides for: the reconnect timer catches what
  a listener of \<^verbatim>\<open>'reconnectRequested'\<close> throws, so whether that listener throws is an
  input of the timer event.
\<close>

datatype ConnectionStatus = DISCONNECTED | CONNECTING | CONNECTED | RECONNECTING | FAILED

record WebSocketConfig =
  maxReconnectAttempts :: int
  reconnectInterval :: int
  maxReconnectInterval :: int
  reconnectBackoffMultiplier :: int
  heartbeatInterval :: int
  messageQueueMaxSize :: int

definition default_config :: WebSocketConfig where
  "default_config = \<lparr>maxReconnectAttempts = 5, reconnectInterval = 1000,
     maxReconnectInterval = 30000, reconnectBackoffMultiplier = 2,
     heartbeatInterval = 30000, messageQueueMaxSize = 100\<rparr>"

text \<open>
  A message: \<open>payload\<close> lists the fields of the payload object, \<open>None\<close> when the frame
  has no payload object (reading a field of it then throws a \<^verbatim>\<open>TypeError\<close>).
\<close>

record ws_message =
  mtype :: string
  payload :: "(string \<times> string) list option"
  timestamp :: int
  messageId :: string

datatype readyState = WS_CONNECTING | WS_OPEN | WS_CLOSING | WS_CLOSED

record socket =
  owner :: key
  url :: string
  readyState :: readyState
  sent :: "ws_message list"
  send_throws :: "bool list"

datatype notification =
    StatusChanged key ConnectionStatus
  | ConnectedEvt key string
  | InvalidMessageFormat key
  | SocketErrorEvt key string
  | ServerErrorEvt key "string option" "string option" "string option"
  | DisconnectedEvt key int string
  | ConnectionFailed key nat
  | ReconnectRequested key nat
  | SketchUpdated key "string option" "string option" "string option"
  | ExecutionComplete key "string option" "string option" "string option" "string option" "string option"
  | ServerStatus key "string option" "string option" "string option"
  | MessageEvt key ws_message

datatype console_line =
    Log_connected key
  | Error_parse key
  | Log_closed key int string
  | Error_socket key string
  | Warn_unknown_type string
  | Error_send key
  | Log_flushing nat key
  | Error_queued_send
  | Log_reconnecting key int nat int
  | Error_reconnection key
  | Error_heartbeat key

datatype effect = Emit notification | Console console_line

text \<open>What subscribers receive: the notifications of a trace, without the console lines.\<close>

definition notifications :: "effect list \<Rightarrow> notification list" where
  "notifications t = concat (map (\<lambda>e. case e of Emit n \<Rightarrow> [n] | Console l \<Rightarrow> []) t)"

datatype timer_callback = ReconnectTimer key nat | ConnectTimeout key nat | HeartbeatTimer key

record timer =
  timer_id :: nat
  delay :: int
  callback :: timer_callback

record manager =
  config :: WebSocketConfig
  connections :: "(key \<times> nat) list"
  connectionStatus :: "key \<rightharpoonup> ConnectionStatus"
  reconnectAttempts :: "key \<rightharpoonup> nat"
  reconnectTimers :: "key \<rightharpoonup> nat"
  heartbeatTimers :: "key \<rightharpoonup> nat"
  messageQueues :: "key \<rightharpoonup> ws_message list"
  sockets :: "socket list"
  armed :: "timer list"
  timer_count :: nat
  trace :: "effect list"

definition new_manager :: "WebSocketConfig \<Rightarrow> manager" where
  "new_manager cfg = \<lparr>config = cfg, connections = [], connectionStatus = Map.empty,
     reconnectAttempts = Map.empty, reconnectTimers = Map.empty, heartbeatTimers = Map.empty,
     messageQueues = Map.empty, sockets = [], armed = [], timer_count = 0, trace = []\<rparr>"

subsection \<open>Small operations\<close>

definition emit :: "notification \<Rightarrow> manager \<Rightarrow> manager" where
  "emit n s = s\<lparr>trace := trace s @ [Emit n]\<rparr>"

definition console :: "console_line \<Rightarrow> manager \<Rightarrow> manager" where
  "console l s = s\<lparr>trace := trace s @ [Console l]\<rparr>"

definition getConnectionStatus :: "manager \<Rightarrow> key \<Rightarrow> ConnectionStatus" where
  "getConnectionStatus s k = (case connectionStatus s k of None \<Rightarrow> DISCONNECTED | Some st \<Rightarrow> st)"

definition setConnectionStatus :: "key \<Rightarrow> ConnectionStatus \<Rightarrow> manager \<Rightarrow> manager" where
  "setConnectionStatus k st s =
     emit (StatusChanged k st) (s\<lparr>connectionStatus := (connectionStatus s)(k \<mapsto> st)\<rparr>)"

definition getReconnectAttempts :: "manager \<Rightarrow> key \<Rightarrow> nat" where
  "getReconnectAttempts s k = (case reconnectAttempts s k of None \<Rightarrow> 0 | Some n \<Rightarrow> n)"

definition socket_open :: "manager \<Rightarrow> nat \<Rightarrow> bool" where
  "socket_open s w \<longleftrightarrow> w < length (sockets s) \<and> readyState (sockets s ! w) = WS_OPEN"

definition isConnected :: "manager \<Rightarrow> key \<Rightarrow> bool" where
  "isConnected s k = (case map_of (connections s) k of None \<Rightarrow> False | Some w \<Rightarrow> socket_open s w)"

definition set_timer :: "int \<Rightarrow> timer_callback \<Rightarrow> manager \<Rightarrow> manager" where
  "set_timer d cb s =
     s\<lparr>armed := armed s @ [\<lparr>timer_id = timer_count s, delay = d, callback = cb\<rparr>],
       timer_count := Suc (timer_count s)\<rparr>"

definition clear_timer :: "nat \<Rightarrow> manager \<Rightarrow> manager" where
  "clear_timer t s = s\<lparr>armed := filter (\<lambda>x. timer_id x \<noteq> t) (armed s)\<rparr>"

definition ws_send :: "ws_message \<Rightarrow> socket \<Rightarrow> bool \<times> socket" where
  "ws_send m w =
     (case send_throws w of
        [] \<Rightarrow> (True, w\<lparr>sent := sent w @ [m]\<rparr>)
      | t # ts \<Rightarrow> if t then (False, w\<lparr>send_throws := ts\<rparr>)
                  else (True, w\<lparr>sent := sent w @ [m], send_throws := ts\<rparr>))"

definition ws_close :: "socket \<Rightarrow> socket" where
  "ws_close w = (if readyState w = WS_CLOSED then w else w\<lparr>readyState := WS_CLOSING\<rparr>)"

definition startHeartbeat :: "key \<Rightarrow> manager \<Rightarrow> manager" where
  "startHeartbeat k s =
     (set_timer (heartbeatInterval (config s)) (HeartbeatTimer k) s)
       \<lparr>heartbeatTimers := (heartbeatTimers s)(k \<mapsto> timer_count s)\<rparr>"

definition stopHeartbeat :: "key \<Rightarrow> manager \<Rightarrow> manager" where
  "stopHeartbeat k s =
     (case heartbeatTimers s k of
        None \<Rightarrow> s
      | Some t \<Rightarrow> (clear_timer t s)\<lparr>heartbeatTimers := (heartbeatTimers s)(k := None)\<rparr>)"

subsection \<open>The message queue\<close>

definition queueMessage :: "key \<Rightarrow> ws_message \<Rightarrow> manager \<Rightarrow> manager" where
  "queueMessage k m s =
     (let q = (case messageQueues s k of None \<Rightarrow> [] | Some q \<Rightarrow> q) @ [m];
          q' = (if int (length q) > messageQueueMaxSize (config s) then tl q else q)
      in s\<lparr>messageQueues := (messageQueues s)(k \<mapsto> q')\<rparr>)"

text \<open>
  The loop of \<^verbatim>\<open>flushMessageQueue\<close>: the socket after the sends, the messages left in
  the queue, and whether a send threw (the message is then put back in front).
\<close>

fun flush_loop :: "socket \<Rightarrow> ws_message list \<Rightarrow> socket \<times> ws_message list \<times> bool" where
  "flush_loop w [] = (w, [], False)"
| "flush_loop w (m # q) =
     (case ws_send m w of
        (True, w') \<Rightarrow> flush_loop w' q
      | (False, w') \<Rightarrow> (w', m # q, True))"

definition flushMessageQueue :: "key \<Rightarrow> manager \<Rightarrow> manager" where
  "flushMessageQueue k s =
     (case messageQueues s k of
        None \<Rightarrow> s
      | Some q \<Rightarrow>
          if q = [] then s
          else (case map_of (connections s) k of
                  None \<Rightarrow> s
                | Some w \<Rightarrow>
                    if \<not> socket_open s w then s
                    else (case flush_loop (sockets s ! w) q of
                            (w', q', threw) \<Rightarrow>
                              (let s1 = console (Log_flushing (length q) k) s;
                                   s2 = s1\<lparr>sockets := (sockets s1)[w := w'],
                                           messageQueues := (messageQueues s1)(k \<mapsto> q')\<rparr>
                               in if threw then console Error_queued_send s2 else s2))))"

text \<open>
  \<^verbatim>\<open>sendMessage\<close>: the flag tells whether the promise resolves (\<open>False\<close>: it rejects
  with the error thrown by \<^verbatim>\<open>send\<close>).
\<close>

definition sendMessage ::
    "key \<Rightarrow> string \<Rightarrow> (string \<times> string) list option \<Rightarrow> string \<Rightarrow> int \<Rightarrow> manager \<Rightarrow> bool \<times> manager" where
  "sendMessage k ty pl uuid now s =
     (let fullMessage = \<lparr>mtype = ty, payload = pl, timestamp = now, messageId = uuid\<rparr>
      in case map_of (connections s) k of
           None \<Rightarrow> (True, queueMessage k fullMessage s)
         | Some w \<Rightarrow>
             if socket_open s w
             then (case ws_send fullMessage (sockets s ! w) of
                     (True, w') \<Rightarrow> (True, s\<lparr>sockets := (sockets s)[w := w']\<rparr>)
                   | (False, w') \<Rightarrow> (False, console (Error_send k) (s\<lparr>sockets := (sockets s)[w := w']\<rparr>)))
             else (True, queueMessage k fullMessage s))"


subsection \<open>Inbound messages\<close>

datatype js_error = TypeError

definition handleMessage :: "key \<Rightarrow> ws_message \<Rightarrow> manager \<Rightarrow> js_error + manager" where
  "handleMessage k m s =
     (if mtype m = ''pong'' then Inr s
      else if mtype m = ''sketch_updated'' then
        (case payload m of
           None \<Rightarrow> Inl TypeError
         | Some p \<Rightarrow> Inr (emit (MessageEvt k m)
             (emit (SketchUpdated k (map_of p ''sketchName'') (map_of p ''lastModified'')
                      (map_of p ''hasErrors'')) s)))
      else if mtype m = ''execution_complete'' then
        (case payload m of
           None \<Rightarrow> Inl TypeError
         | Some p \<Rightarrow> Inr (emit (MessageEvt k m)
             (emit (ExecutionComplete k (map_of p ''sketchName'') (map_of p ''success'')
                      (map_of p ''executionTime'') (map_of p ''previewUrl'')
                      (map_of p ''errorMessage'')) s)))
      else if mtype m = ''server_status'' then
        (case payload m of
           None \<Rightarrow> Inl TypeError
         | Some p \<Rightarrow> Inr (emit (MessageEvt k m)
             (emit (ServerStatus k (map_of p ''status'') (map_of p ''memoryUsage'')
                      (map_of p ''activeConnections'')) s)))
      else if mtype m = ''error'' then
        (case payload m of
           None \<Rightarrow> Inl TypeError
         | Some p \<Rightarrow> Inr (emit (MessageEvt k m)
             (emit (ServerErrorEvt k (map_of p ''code'') (map_of p ''message'')
                      (map_of p ''details'')) s)))
      else Inr (emit (MessageEvt k m) (console (Warn_unknown_type (mtype m)) s)))"

text \<open>
  What arrives on the socket: text that is not JSON, the JSON value \<^verbatim>\<open>null\<close> (reading
  its \<^verbatim>\<open>type\<close> throws), or a JSON value read as a message. A value without a string
  \<^verbatim>\<open>type\<close> takes the path of a type that matches no case.
\<close>

datatype inbound = NotJson | JsonNull | Json ws_message

definition on_message :: "key \<Rightarrow> inbound \<Rightarrow> manager \<Rightarrow> manager" where
  "on_message k d s =
     (case d of
        Json m \<Rightarrow>
          (case handleMessage k m s of
             Inr s' \<Rightarrow> s'
           | Inl e \<Rightarrow> emit (InvalidMessageFormat k) (console (Error_parse k) s))
      | _ \<Rightarrow> emit (InvalidMessageFormat k) (console (Error_parse k) s))"

subsection \<open>Reconnection\<close>

definition handleReconnection :: "key \<Rightarrow> manager \<Rightarrow> manager" where
  "handleReconnection k s =
     (let attempts = getReconnectAttempts s k
      in if int attempts \<ge> maxReconnectAttempts (config s)
         then emit (ConnectionFailed k attempts) (setConnectionStatus k FAILED s)
         else
           (let s1 = setConnectionStatus k RECONNECTING s;
                s2 = s1\<lparr>reconnectAttempts := (reconnectAttempts s1)(k \<mapsto> attempts + 1)\<rparr>;
                d = min (reconnectInterval (config s) * reconnectBackoffMultiplier (config s) ^ attempts)
                        (maxReconnectInterval (config s));
                s3 = console (Log_reconnecting k d (attempts + 1) (maxReconnectAttempts (config s))) s2;
                s4 = set_timer d (ReconnectTimer k (attempts + 1)) s3
            in s4\<lparr>reconnectTimers := (reconnectTimers s4)(k \<mapsto> timer_count s3)\<rparr>))"

definition handleConnectionClose :: "key \<Rightarrow> int \<Rightarrow> string \<Rightarrow> manager \<Rightarrow> manager" where
  "handleConnectionClose k cd reason s =
     (let s1 = stopHeartbeat k (s\<lparr>connections := AList.delete k (connections s)\<rparr>)
      in if cd = 1000 \<or> int (getReconnectAttempts s1 k) \<ge> maxReconnectAttempts (config s1)
         then emit (DisconnectedEvt k cd reason) (setConnectionStatus k DISCONNECTED s1)
         else handleReconnection k s1)"

definition handleConnectionError :: "key \<Rightarrow> string \<Rightarrow> manager \<Rightarrow> manager" where
  "handleConnectionError k msg s =
     (let s1 = emit (SocketErrorEvt k msg) s
      in if getConnectionStatus s1 k = CONNECTED then handleReconnection k s1 else s1)"

subsection \<open>Connecting and the socket's events\<close>

text \<open>
  What \<^verbatim>\<open>new WebSocket(url, ...)\<close> does is the library's matter: it throws (for a URL
  it does not accept), or it gives a socket, with the environment's choice \<open>ts\<close> of
  which sends on this socket will throw.
\<close>

datatype construction = Constructed "bool list" | ConstructorThrows

text \<open>
  \<^verbatim>\<open>createConnection\<close>: the status becomes Connecting first. Then, inside
  \<^verbatim>\<open>try\<close>, the socket is constructed, its handlers are attached and the 10 s timeout
  is armed; when the constructor throws, the \<^verbatim>\<open>catch\<close> rejects the promise and nothing
  else happens, so the status stays Connecting. The result is the socket the returned
  promise is about, \<open>None\<close> when there is none.
\<close>

definition createConnection :: "key \<Rightarrow> string \<Rightarrow> construction \<Rightarrow> manager \<Rightarrow> nat option \<times> manager" where
  "createConnection k u c s =
     (let s1 = setConnectionStatus k CONNECTING s
      in case c of
           ConstructorThrows \<Rightarrow> (None, s1)
         | Constructed ts \<Rightarrow>
             (let w = length (sockets s1);
                  s2 = s1\<lparr>sockets := sockets s1 @
                         [\<lparr>owner = k, url = u, readyState = WS_CONNECTING, sent = [],
                           send_throws = ts\<rparr>]\<rparr>
              in (Some w, set_timer 10000 (ConnectTimeout k w) s2)))"

definition connect :: "key \<Rightarrow> string \<Rightarrow> construction \<Rightarrow> manager \<Rightarrow> nat option \<times> manager" where
  "connect k u c s =
     (if isConnected s k
      then (case map_of (connections s) k of
              Some w \<Rightarrow> (Some w, s)
            | None \<Rightarrow> createConnection k u c s)
      else createConnection k u c s)"

text \<open>
  \<open>enc\<close> stands for \<^verbatim>\<open>encodeURIComponent\<close>, a function of the platform. The URL
  plays no part in what the manager does; the events below take the identity for it.
\<close>

definition connectToSketch ::
    "(string \<Rightarrow> string) \<Rightarrow> string \<Rightarrow> string \<Rightarrow> construction \<Rightarrow> manager
       \<Rightarrow> nat option \<times> manager" where
  "connectToSketch enc sketchName baseUrl c s =
     connect (''sketch-'' @ sketchName) (baseUrl @ ''/ws/sketches/'' @ enc sketchName) c s"

definition connectToServer :: "string \<Rightarrow> construction \<Rightarrow> manager \<Rightarrow> nat option \<times> manager" where
  "connectToServer baseUrl c s = connect ''server'' (baseUrl @ ''/ws/server'') c s"

definition set_readyState :: "nat \<Rightarrow> readyState \<Rightarrow> manager \<Rightarrow> manager" where
  "set_readyState w r s = s\<lparr>sockets := (sockets s)[w := (sockets s ! w)\<lparr>readyState := r\<rparr>]\<rparr>"

definition on_open :: "nat \<Rightarrow> manager \<Rightarrow> manager" where
  "on_open w s =
     (let k = owner (sockets s ! w);
          s0 = set_readyState w WS_OPEN s;
          s1 = setConnectionStatus k CONNECTED (console (Log_connected k) s0);
          s2 = s1\<lparr>connections := AList.update k w (connections s1),
                  reconnectAttempts := (reconnectAttempts s1)(k \<mapsto> 0)\<rparr>
      in emit (ConnectedEvt k (url (sockets s ! w))) (flushMessageQueue k (startHeartbeat k s2)))"

definition on_close :: "nat \<Rightarrow> int \<Rightarrow> string \<Rightarrow> manager \<Rightarrow> manager" where
  "on_close w cd reason s =
     (let k = owner (sockets s ! w)
      in handleConnectionClose k cd reason (console (Log_closed k cd reason) (set_readyState w WS_CLOSED s)))"

definition on_error :: "nat \<Rightarrow> string \<Rightarrow> manager \<Rightarrow> manager" where
  "on_error w msg s =
     (let k = owner (sockets s ! w)
      in handleConnectionError k msg (console (Error_socket k msg) s))"

subsection \<open>Timers\<close>

text \<open>
  A timeout fires. The reconnect timer removes its key's entry and emits
  \<^verbatim>\<open>'reconnectRequested'\<close>; when a listener throws (\<open>listener_throws\<close>), the
  \<^verbatim>\<open>catch\<close> logs it and calls \<^verbatim>\<open>handleReconnection\<close> again. The notification is
  recorded in both cases: the listener was called.
\<close>

definition timeout_fires :: "nat \<Rightarrow> bool \<Rightarrow> manager \<Rightarrow> manager" where
  "timeout_fires t listener_throws s =
     (case find (\<lambda>x. timer_id x = t) (armed s) of
        None \<Rightarrow> s
      | Some x \<Rightarrow>
          (case callback x of
             ReconnectTimer k n \<Rightarrow>
               (let s1 = clear_timer t s;
                    s2 = emit (ReconnectRequested k n)
                           (s1\<lparr>reconnectTimers := (reconnectTimers s1)(k := None)\<rparr>)
                in if listener_throws
                   then handleReconnection k (console (Error_reconnection k) s2)
                   else s2)
           | ConnectTimeout k w \<Rightarrow>
               (let s1 = clear_timer t s
                in if getConnectionStatus s1 k = CONNECTING
                   then s1\<lparr>sockets := (sockets s1)[w := ws_close (sockets s1 ! w)]\<rparr>
                   else s1)
           | HeartbeatTimer k \<Rightarrow> s))"

definition heartbeat_fires :: "nat \<Rightarrow> string \<Rightarrow> int \<Rightarrow> manager \<Rightarrow> manager" where
  "heartbeat_fires t uuid now s =
     (case find (\<lambda>x. timer_id x = t) (armed s) of
        None \<Rightarrow> s
      | Some x \<Rightarrow>
          (case callback x of
             HeartbeatTimer k \<Rightarrow>
               (case map_of (connections s) k of
                  None \<Rightarrow> stopHeartbeat k s
                | Some w \<Rightarrow>
                    if socket_open s w
                    then (case ws_send \<lparr>mtype = ''ping'', payload = Some [], timestamp = now,
                                         messageId = uuid\<rparr> (sockets s ! w) of
                            (True, w') \<Rightarrow> s\<lparr>sockets := (sockets s)[w := w']\<rparr>
                          | (False, w') \<Rightarrow>
                              stopHeartbeat k (console (Error_heartbeat k)
                                (s\<lparr>sockets := (sockets s)[w := w']\<rparr>)))
                    else stopHeartbeat k s)
           | _ \<Rightarrow> s))"

subsection \<open>Closing\<close>

definition cleanup :: "key \<Rightarrow> manager \<Rightarrow> manager" where
  "cleanup k s =
     (let s1 = stopHeartbeat k
                 (s\<lparr>connections := AList.delete k (connections s),
                    connectionStatus := (connectionStatus s)(k := None),
                    reconnectAttempts := (reconnectAttempts s)(k := None),
                    messageQueues := (messageQueues s)(k := None)\<rparr>)
      in case reconnectTimers s1 k of
           None \<Rightarrow> s1
         | Some t \<Rightarrow> (clear_timer t s1)\<lparr>reconnectTimers := (reconnectTimers s1)(k := None)\<rparr>)"

definition closeConnection :: "key \<Rightarrow> manager \<Rightarrow> manager" where
  "closeConnection k s =
     cleanup k (case map_of (connections s) k of
                  None \<Rightarrow> s
                | Some w \<Rightarrow> s\<lparr>sockets := (sockets s)[w := ws_close (sockets s ! w)]\<rparr>)"

definition closeAllConnections :: "manager \<Rightarrow> manager" where
  "closeAllConnections s = fold closeConnection (map fst (connections s)) s"

definition dispose :: "manager \<Rightarrow> manager" where
  "dispose s = closeAllConnections s"

subsection \<open>Everything that can happen to a manager\<close>

datatype event =
    ConnectToSketch string string construction
  | ConnectToServer string construction
  | SendMessage key string "(string \<times> string) list option" string int
  | CloseConnection key
  | CloseAllConnections
  | Dispose
  | WsOpen nat
  | WsMessage nat inbound
  | WsClose nat int string
  | WsError nat string
  | PeerClosing nat
  | TimeoutFires nat bool
  | HeartbeatFires nat string int

text \<open>
  A socket event needs its socket: \<^verbatim>\<open>'open'\<close> comes to a connecting socket, messages to
  an open one, \<^verbatim>\<open>'close'\<close> once. \<open>PeerClosing\<close> is the close handshake begun by the
  server, before \<^verbatim>\<open>'close'\<close> is emitted.
\<close>

definition step :: "event \<Rightarrow> manager \<Rightarrow> manager" where
  "step e s =
     (case e of
        ConnectToSketch n b ts \<Rightarrow> snd (connectToSketch id n b ts s)
      | ConnectToServer b ts \<Rightarrow> snd (connectToServer b ts s)
      | SendMessage k ty pl uuid now \<Rightarrow> snd (sendMessage k ty pl uuid now s)
      | CloseConnection k \<Rightarrow> closeConnection k s
      | CloseAllConnections \<Rightarrow> closeAllConnections s
      | Dispose \<Rightarrow> dispose s
      | WsOpen w \<Rightarrow>
          if w < length (sockets s) \<and> readyState (sockets s ! w) = WS_CONNECTING
          then on_open w s else s
      | WsMessage w d \<Rightarrow>
          if socket_open s w then on_message (owner (sockets s ! w)) d s else s
      | WsClose w cd reason \<Rightarrow>
          if w < length (sockets s) \<and> readyState (sockets s ! w) \<noteq> WS_CLOSED
          then on_close w cd reason s else s
      | WsError w msg \<Rightarrow>
          if w < length (sockets s) \<and> readyState (sockets s ! w) \<noteq> WS_CLOSED
          then on_error w msg s else s
      | PeerClosing w \<Rightarrow> if socket_open s w then set_readyState w WS_CLOSING s else s
      | TimeoutFires t thr \<Rightarrow> timeout_fires t thr s
      | HeartbeatFires t uuid now \<Rightarrow> heartbeat_fires t uuid now s)"

fun run :: "event list \<Rightarrow> manager \<Rightarrow> manager" where
  "run [] s = s"
| "run (e # es) s = run es (step e s)"

subsection \<open>What the small operations leave unchanged\<close>


lemma emit_fields [simp]:
  "config (emit n s) = config s" "connections (emit n s) = connections s"
  "connectionStatus (emit n s) = connectionStatus s" "reconnectAttempts (emit n s) = reconnectAttempts s"
  "reconnectTimers (emit n s) = reconnectTimers s" "heartbeatTimers (emit n s) = heartbeatTimers s"
  "messageQueues (emit n s) = messageQueues s" "sockets (emit n s) = sockets s"
  "armed (emit n s) = armed s" "timer_count (emit n s) = timer_count s"
  "trace (emit n s) = trace s @ [Emit n]"
  by (simp_all add: emit_def)

lemma console_fields [simp]:
  "config (console l s) = config s" "connections (console l s) = connections s"
  "connectionStatus (console l s) = connectionStatus s" "reconnectAttempts (console l s) = reconnectAttempts s"
  "reconnectTimers (console l s) = reconnectTimers s" "heartbeatTimers (console l s) = heartbeatTimers s"
  "messageQueues (console l s) = messageQueues s" "sockets (console l s) = sockets s"
  "armed (console l s) = armed s" "timer_count (console l s) = timer_count s"
  "trace (console l s) = trace s @ [Console l]"
  by (simp_all add: console_def)

lemma set_timer_fields [simp]:
  "config (set_timer d cb s) = config s" "connections (set_timer d cb s) = connections s"
  "connectionStatus (set_timer d cb s) = connectionStatus s"
  "reconnectAttempts (set_timer d cb s) = reconnectAttempts s"
  "reconnectTimers (set_timer d cb s) = reconnectTimers s"
  "heartbeatTimers (set_timer d cb s) = heartbeatTimers s"
  "messageQueues (set_timer d cb s) = messageQueues s" "sockets (set_timer d cb s) = sockets s"
  "armed (set_timer d cb s) = armed s @ [\<lparr>timer_id = timer_count s, delay = d, callback = cb\<rparr>]"
  "timer_count (set_timer d cb s) = Suc (timer_count s)"
  "trace (set_timer d cb s) = trace s"
  by (simp_all add: set_timer_def)

lemma clear_timer_fields [simp]:
  "config (clear_timer t s) = config s" "connections (clear_timer t s) = connections s"
  "connectionStatus (clear_timer t s) = connectionStatus s"
  "reconnectAttempts (clear_timer t s) = reconnectAttempts s"
  "reconnectTimers (clear_timer t s) = reconnectTimers s"
  "heartbeatTimers (clear_timer t s) = heartbeatTimers s"
  "messageQueues (clear_timer t s) = messageQueues s" "sockets (clear_timer t s) = sockets s"
  "armed (clear_timer t s) = filter (\<lambda>x. timer_id x \<noteq> t) (armed s)"
  "timer_count (clear_timer t s) = timer_count s"
  "trace (clear_timer t s) = trace s"
  by (simp_all add: clear_timer_def)

lemma set_readyState_fields [simp]:
  "config (set_readyState w r s) = config s" "connections (set_readyState w r s) = connections s"
  "connectionStatus (set_readyState w r s) = connectionStatus s"
  "reconnectAttempts (set_readyState w r s) = reconnectAttempts s"
  "reconnectTimers (set_readyState w r s) = reconnectTimers s"
  "heartbeatTimers (set_readyState w r s) = heartbeatTimers s"
  "messageQueues (set_readyState w r s) = messageQueues s"
  "sockets (set_readyState w r s) = (sockets s)[w := (sockets s ! w)\<lparr>readyState := r\<rparr>]"
  "armed (set_readyState w r s) = armed s" "timer_count (set_readyState w r s) = timer_count s"
  "trace (set_readyState w r s) = trace s"
  by (simp_all add: set_readyState_def)

lemma setConnectionStatus_fields [simp]:
  "config (setConnectionStatus k st s) = config s"
  "connections (setConnectionStatus k st s) = connections s"
  "connectionStatus (setConnectionStatus k st s) = (connectionStatus s)(k \<mapsto> st)"
  "reconnectAttempts (setConnectionStatus k st s) = reconnectAttempts s"
  "reconnectTimers (setConnectionStatus k st s) = reconnectTimers s"
  "heartbeatTimers (setConnectionStatus k st s) = heartbeatTimers s"
  "messageQueues (setConnectionStatus k st s) = messageQueues s"
  "sockets (setConnectionStatus k st s) = sockets s"
  "armed (setConnectionStatus k st s) = armed s"
  "timer_count (setConnectionStatus k st s) = timer_count s"
  "trace (setConnectionStatus k st s) = trace s @ [Emit (StatusChanged k st)]"
  by (simp_all add: setConnectionStatus_def)

lemma startHeartbeat_fields [simp]:
  "config (startHeartbeat k s) = config s" "connections (startHeartbeat k s) = connections s"
  "connectionStatus (startHeartbeat k s) = connectionStatus s"
  "reconnectAttempts (startHeartbeat k s) = reconnectAttempts s"
  "reconnectTimers (startHeartbeat k s) = reconnectTimers s"
  "messageQueues (startHeartbeat k s) = messageQueues s" "sockets (startHeartbeat k s) = sockets s"
  "trace (startHeartbeat k s) = trace s"
  by (simp_all add: startHeartbeat_def)

lemma stopHeartbeat_fields [simp]:
  "config (stopHeartbeat k s) = config s" "connections (stopHeartbeat k s) = connections s"
  "connectionStatus (stopHeartbeat k s) = connectionStatus s"
  "reconnectAttempts (stopHeartbeat k s) = reconnectAttempts s"
  "reconnectTimers (stopHeartbeat k s) = reconnectTimers s"
  "messageQueues (stopHeartbeat k s) = messageQueues s" "sockets (stopHeartbeat k s) = sockets s"
  "trace (stopHeartbeat k s) = trace s" "timer_count (stopHeartbeat k s) = timer_count s"
  by (simp_all add: stopHeartbeat_def split: option.splits)

lemma getConnectionStatus_simps [simp]:
  "getConnectionStatus (emit n s) k = getConnectionStatus s k"
  "getConnectionStatus (console l s) k = getConnectionStatus s k"
  "getConnectionStatus (stopHeartbeat k' s) k = getConnectionStatus s k"
  "getConnectionStatus (clear_timer t s) k = getConnectionStatus s k"
  by (simp_all add: getConnectionStatus_def)

lemma getReconnectAttempts_simps [simp]:
  "getReconnectAttempts (emit n s) k = getReconnectAttempts s k"
  "getReconnectAttempts (console l s) k = getReconnectAttempts s k"
  "getReconnectAttempts (stopHeartbeat k' s) k = getReconnectAttempts s k"
  "getReconnectAttempts (clear_timer t s) k = getReconnectAttempts s k"
  "getReconnectAttempts (setConnectionStatus k' st s) k = getReconnectAttempts s k"
  "getReconnectAttempts (set_readyState w r s) k = getReconnectAttempts s k"
  by (simp_all add: getReconnectAttempts_def)

lemma handleReconnection_queues [simp]:
  "messageQueues (handleReconnection k s) = messageQueues s"
  "config (handleReconnection k s) = config s"
  by (simp_all add: handleReconnection_def Let_def)

lemma handleConnectionClose_queues [simp]:
  "messageQueues (handleConnectionClose k cd r s) = messageQueues s"
  "config (handleConnectionClose k cd r s) = config s"
  by (simp_all add: handleConnectionClose_def Let_def)

lemma handleConnectionError_queues [simp]:
  "messageQueues (handleConnectionError k msg s) = messageQueues s"
  "config (handleConnectionError k msg s) = config s"
  by (simp_all add: handleConnectionError_def Let_def)

lemma createConnection_queues [simp]:
  "messageQueues (snd (createConnection k u c s)) = messageQueues s"
  "config (snd (createConnection k u c s)) = config s"
  by (simp_all add: createConnection_def Let_def split: construction.splits)

lemma connect_queues [simp]:
  "messageQueues (snd (connect k u c s)) = messageQueues s"
  "config (snd (connect k u c s)) = config s"
  by (simp_all add: connect_def split: option.splits)

lemma on_message_queues [simp]:
  "messageQueues (on_message k d s) = messageQueues s"
  "config (on_message k d s) = config s"
  by (auto simp: on_message_def handleMessage_def split: inbound.splits option.splits sum.splits if_splits)

lemma timeout_fires_queues [simp]:
  "messageQueues (timeout_fires t thr s) = messageQueues s"
  "config (timeout_fires t thr s) = config s"
  by (simp_all add: timeout_fires_def Let_def split: option.splits timer_callback.splits)

lemma heartbeat_fires_queues [simp]:
  "messageQueues (heartbeat_fires t u n s) = messageQueues s"
  "config (heartbeat_fires t u n s) = config s"
  by (simp_all add: heartbeat_fires_def Let_def split: option.splits timer_callback.splits prod.splits bool.splits)

lemma cleanup_queues [simp]:
  "messageQueues (cleanup k s) = (messageQueues s)(k := None)"
  "config (cleanup k s) = config s"
  by (simp_all add: cleanup_def Let_def split: option.splits)

lemma closeConnection_queues [simp]:
  "messageQueues (closeConnection k s) = (messageQueues s)(k := None)"
  "config (closeConnection k s) = config s"
  by (simp_all add: closeConnection_def split: option.splits)

lemma config_fold_close [simp]: "config (fold closeConnection ks s) = config s"
  by (induction ks arbitrary: s) simp_all

lemma flushMessageQueue_config [simp]: "config (flushMessageQueue k s) = config s"
  by (simp add: flushMessageQueue_def Let_def split: option.splits prod.splits)

lemma queueMessage_config [simp]: "config (queueMessage k m s) = config s"
  by (simp add: queueMessage_def Let_def)

lemma sendMessage_config [simp]: "config (snd (sendMessage k ty pl u n s)) = config s"
  by (simp add: sendMessage_def Let_def split: option.splits prod.splits bool.splits)

lemma on_open_config [simp]: "config (on_open w s) = config s"
  by (simp add: on_open_def Let_def)

lemma on_close_queues [simp]:
  "messageQueues (on_close w cd r s) = messageQueues s" "config (on_close w cd r s) = config s"
  by (simp_all add: on_close_def Let_def)

lemma on_error_queues [simp]:
  "messageQueues (on_error w msg s) = messageQueues s" "config (on_error w msg s) = config s"
  by (simp_all add: on_error_def Let_def)

lemma step_config [simp]: "config (step e s) = config s"
  by (cases e) (simp_all add: step_def connectToSketch_def connectToServer_def
      closeAllConnections_def dispose_def)

lemma run_config [simp]: "config (run es s) = config s"
  by (induction es arbitrary: s) simp_all

lemma getReconnectAttempts_connections [simp]:
  "getReconnectAttempts (s\<lparr>connections := c\<rparr>) k = getReconnectAttempts s k"
  "getConnectionStatus (s\<lparr>connections := c\<rparr>) k = getConnectionStatus s k"
  by (simp_all add: getReconnectAttempts_def getConnectionStatus_def)

lemma attempts_connect [simp]:
  "reconnectAttempts (snd (createConnection k u c s)) = reconnectAttempts s"
  "reconnectAttempts (snd (connect k u c s)) = reconnectAttempts s"
  by (simp_all add: createConnection_def connect_def Let_def split: option.splits construction.splits)

lemma attempts_on_message [simp]: "reconnectAttempts (on_message k d s) = reconnectAttempts s"
  by (auto simp: on_message_def handleMessage_def split: inbound.splits option.splits sum.splits if_splits)

lemma attempts_sendMessage [simp]:
  "reconnectAttempts (snd (sendMessage k ty pl u n s)) = reconnectAttempts s"
  by (simp add: sendMessage_def queueMessage_def Let_def split: option.splits prod.splits bool.splits)

lemma attempts_handleReconnection:
  "getReconnectAttempts s k \<le> getReconnectAttempts (handleReconnection k' s) k"
  by (simp add: handleReconnection_def Let_def getReconnectAttempts_def)

lemma attempts_timeout_fires:
  "getReconnectAttempts s k \<le> getReconnectAttempts (timeout_fires t thr s) k"
proof (cases "find (\<lambda>x. timer_id x = t) (armed s)")
  case None
  then show ?thesis by (simp add: timeout_fires_def)
next
  case (Some x)
  show ?thesis
  proof (cases "callback x")
    case (ReconnectTimer k' n)
    let ?s2 = "console (Error_reconnection k') (emit (ReconnectRequested k' n)
                 ((clear_timer t s)\<lparr>reconnectTimers := (reconnectTimers (clear_timer t s))(k' := None)\<rparr>))"
    have "getReconnectAttempts ?s2 k = getReconnectAttempts s k"
      by (simp add: getReconnectAttempts_def)
    then show ?thesis
      using Some ReconnectTimer attempts_handleReconnection[of ?s2 k k']
      by (simp add: timeout_fires_def Let_def getReconnectAttempts_def)
  next
    case (ConnectTimeout k' w)
    then show ?thesis using Some by (simp add: timeout_fires_def Let_def getReconnectAttempts_def)
  next
    case (HeartbeatTimer k')
    then show ?thesis using Some by (simp add: timeout_fires_def)
  qed
qed

lemma attempts_heartbeat_fires [simp]: "reconnectAttempts (heartbeat_fires t u n s) = reconnectAttempts s"
  by (simp add: heartbeat_fires_def Let_def split: option.splits timer_callback.splits prod.splits bool.splits)

lemma attempts_flush [simp]: "reconnectAttempts (flushMessageQueue k s) = reconnectAttempts s"
  by (simp add: flushMessageQueue_def Let_def split: option.splits prod.splits)

lemma attempts_on_open:
  "reconnectAttempts (on_open w s) = (reconnectAttempts s)(owner (sockets s ! w) \<mapsto> 0)"
  by (simp add: on_open_def Let_def)

lemma attempts_cleanup [simp]:
  "reconnectAttempts (cleanup k s) = (reconnectAttempts s)(k := None)"
  "reconnectAttempts (closeConnection k s) = (reconnectAttempts s)(k := None)"
  by (simp_all add: cleanup_def closeConnection_def Let_def split: option.splits)

subsection \<open>Claim C10: the status lookup\<close>

text \<open>
  Claim C10. \<^verbatim>\<open>getConnectionStatus\<close> answers for every key: a key of a new manager,
  and any key without a status entry, is Disconnected, and so is a key whose state was
  released by \<^verbatim>\<open>cleanup\<close> or \<^verbatim>\<open>closeConnection\<close>.
\<close>

theorem status_lookup_defaults_to_disconnected:
  "getConnectionStatus (new_manager cfg) k = DISCONNECTED
   \<and> (connectionStatus s k = None \<longrightarrow> getConnectionStatus s k = DISCONNECTED)
   \<and> getConnectionStatus (cleanup k s) k = DISCONNECTED
   \<and> getConnectionStatus (closeConnection k s) k = DISCONNECTED"
proof -
  have c: "\<And>s. connectionStatus (cleanup k s) k = None"
    by (simp add: cleanup_def Let_def split: option.splits)
  show ?thesis
    by (simp add: getConnectionStatus_def new_manager_def closeConnection_def c)
qed

theorem status_lookup_witness:
  "connectionStatus (new_manager default_config) ''sketch-a'' = None
   \<and> getConnectionStatus (new_manager default_config) ''sketch-a'' = DISCONNECTED
   \<and> getConnectionStatus (closeConnection ''server''
        (snd (connectToServer ''ws://localhost:8083'' (Constructed []) (new_manager default_config)))) ''server''
      = DISCONNECTED"
  using status_lookup_defaults_to_disconnected
          [of default_config "''sketch-a''" "new_manager default_config"]
        status_lookup_defaults_to_disconnected
          [of default_config "''server''" "snd (connectToServer ''ws://localhost:8083'' (Constructed []) (new_manager default_config))"]
  by (simp add: new_manager_def)



subsection \<open>Claims C8 and C9: heartbeat frames and unknown types\<close>

definition ping_frame :: ws_message where
  "ping_frame = \<lparr>mtype = ''ping'', payload = Some [], timestamp = 1700000000000, messageId = ''m-1''\<rparr>"

definition unknown_frame :: ws_message where
  "unknown_frame = \<lparr>mtype = ''sketch_deleted'', payload = Some [(''sketchName'', ''a'')],
     timestamp = 1700000000000, messageId = ''m-2''\<rparr>"

text \<open>
  Claim C8, as amended. An inbound frame of type \<^verbatim>\<open>pong\<close> is consumed silently: the
  manager, its trace included, is unchanged. An inbound frame of type \<^verbatim>\<open>ping\<close> is not
  filtered: it takes the \<^verbatim>\<open>default\<close> branch, is logged as an unknown type and is
  published through the generic \<^verbatim>\<open>'message'\<close> notification (no typed event).
\<close>

theorem pong_is_silent_ping_is_forwarded:
  "(mtype m = ''pong'' \<longrightarrow> handleMessage k m s = Inr s \<and> on_message k (Json m) s = s)
   \<and> (mtype m = ''ping'' \<longrightarrow>
        on_message k (Json m) s = emit (MessageEvt k m) (console (Warn_unknown_type ''ping'') s)
        \<and> notifications (trace (on_message k (Json m) s)) = notifications (trace s) @ [MessageEvt k m])"
  by (simp add: handleMessage_def on_message_def notifications_def)

theorem pong_is_silent_witness:
  "on_message ''server'' (Json (ping_frame\<lparr>mtype := ''pong''\<rparr>)) (new_manager default_config)
     = new_manager default_config
   \<and> notifications (trace (on_message ''server'' (Json ping_frame) (new_manager default_config)))
     = [MessageEvt ''server'' ping_frame]"
  using pong_is_silent_ping_is_forwarded[of "ping_frame\<lparr>mtype := ''pong''\<rparr>" "''server''" "new_manager default_config"]
        pong_is_silent_ping_is_forwarded[of "ping_frame" "''server''" "new_manager default_config"]
  by (simp add: ping_frame_def new_manager_def notifications_def)

text \<open>
  Claim C8 as stated fails for \<^verbatim>\<open>ping\<close>: subscribers of \<^verbatim>\<open>'message'\<close> receive the frame.
\<close>

theorem ping_frame_reaches_subscribers_counterexample:
  "trace (on_message ''server'' (Json ping_frame) (new_manager default_config))
     = [Console (Warn_unknown_type ''ping''), Emit (MessageEvt ''server'' ping_frame)]"
  by (simp add: on_message_def handleMessage_def ping_frame_def new_manager_def)

definition known_type :: "string \<Rightarrow> bool" where
  "known_type t \<longleftrightarrow> t \<in> {''sketch_updated'', ''execution_complete'', ''server_status'', ''error'', ''ping'', ''pong''}"

text \<open>
  Claim C9, as amended. A frame that parses as JSON and whose type is none of the known
  ones does not throw (\<^verbatim>\<open>handleMessage\<close> returns normally), and changes neither the
  status, nor the registered sockets, nor any socket. It writes a warning to the console
  and publishes the frame through the generic \<^verbatim>\<open>'message'\<close> notification, which is the
  only notification subscribers receive for it.
\<close>

theorem unknown_type_is_logged_and_forwarded:
  assumes "\<not> known_type (mtype m)"
  shows "handleMessage k m s = Inr (on_message k (Json m) s)
         \<and> on_message k (Json m) s = s\<lparr>trace := trace s @ [Console (Warn_unknown_type (mtype m)), Emit (MessageEvt k m)]\<rparr>
         \<and> connectionStatus (on_message k (Json m) s) = connectionStatus s
         \<and> connections (on_message k (Json m) s) = connections s
         \<and> sockets (on_message k (Json m) s) = sockets s
         \<and> notifications (trace (on_message k (Json m) s)) = notifications (trace s) @ [MessageEvt k m]"
  using assms
  by (simp add: known_type_def handleMessage_def on_message_def notifications_def emit_def console_def)

theorem unknown_type_witness:
  "\<not> known_type (mtype unknown_frame)
   \<and> on_message ''server'' (Json unknown_frame) (new_manager default_config)
       = (new_manager default_config)\<lparr>trace := [Console (Warn_unknown_type ''sketch_deleted''),
                                                Emit (MessageEvt ''server'' unknown_frame)]\<rparr>"
proof -
  have u: "\<not> known_type (mtype unknown_frame)" by (simp add: known_type_def unknown_frame_def)
  from unknown_type_is_logged_and_forwarded[OF u, of "''server''" "new_manager default_config"] u
  show ?thesis by (simp add: new_manager_def unknown_frame_def)
qed

text \<open>
  Claim C9 as stated fails in its last part: for a frame of the unknown type
  \<^verbatim>\<open>sketch_deleted\<close> subscribers receive the generic message notification and no
  warning; the warning goes to the console only.
\<close>

theorem unknown_type_no_warning_notification_counterexample:
  "notifications (trace (on_message ''server'' (Json unknown_frame) (new_manager default_config)))
     = [MessageEvt ''server'' unknown_frame]"
  by (simp add: on_message_def handleMessage_def unknown_frame_def new_manager_def notifications_def)



subsection \<open>Claim C5: connecting twice\<close>

lemma createConnection_opens_socket:
  "length (sockets (snd (createConnection k u (Constructed ts) s))) = Suc (length (sockets s))"
  "fst (createConnection k u (Constructed ts) s) = Some (length (sockets s))"
  "getConnectionStatus (snd (createConnection k u c s)) k = CONNECTING"
  "connections (snd (createConnection k u c s)) = connections s"
  by (simp_all add: createConnection_def Let_def getConnectionStatus_def split: construction.splits)

lemma createConnection_throws:
  "createConnection k u ConstructorThrows s = (None, setConnectionStatus k CONNECTING s)"
  by (simp add: createConnection_def)

text \<open>
  Claim C5, as amended. A connect call for a key whose registered socket is open
  (\<^verbatim>\<open>isConnected\<close>) returns that socket and changes nothing, so no second socket is
  opened. For a key in any other state, Connecting included (the socket is registered
  only when it opens), connect is not idempotent: it runs \<^verbatim>\<open>createConnection\<close> again,
  which constructs one more socket when the constructor gives one, and none, leaving the
  status Connecting, when the constructor throws.
\<close>

theorem connect_reuses_open_socket_only:
  "(isConnected s k \<longrightarrow>
      (\<exists>w. map_of (connections s) k = Some w \<and> socket_open s w \<and> connect k u c s = (Some w, s)))
   \<and> (\<not> isConnected s k \<longrightarrow> connect k u c s = createConnection k u c s)
   \<and> fst (createConnection k u (Constructed ts) s) = Some (length (sockets s))
   \<and> length (sockets (snd (createConnection k u (Constructed ts) s))) = Suc (length (sockets s))
   \<and> fst (createConnection k u ConstructorThrows s) = None
   \<and> sockets (snd (createConnection k u ConstructorThrows s)) = sockets s
   \<and> armed (snd (createConnection k u ConstructorThrows s)) = armed s
   \<and> getConnectionStatus (snd (createConnection k u c s)) k = CONNECTING
   \<and> connectToServer b c s = connect ''server'' (b @ ''/ws/server'') c s
   \<and> connectToSketch enc n b c s = connect (''sketch-'' @ n) (b @ ''/ws/sketches/'' @ enc n) c s"
  by (auto simp: connect_def isConnected_def createConnection_opens_socket createConnection_throws
        connectToServer_def connectToSketch_def split: option.splits)

theorem connect_reuses_open_socket_witness:
  "isConnected (run [ConnectToServer ''ws://localhost:8083'' (Constructed []), WsOpen 0] (new_manager default_config)) ''server''
   \<and> connectToServer ''ws://localhost:8083'' (Constructed [])
        (run [ConnectToServer ''ws://localhost:8083'' (Constructed []), WsOpen 0] (new_manager default_config))
      = (Some 0, run [ConnectToServer ''ws://localhost:8083'' (Constructed []), WsOpen 0] (new_manager default_config))
   \<and> \<not> isConnected (new_manager default_config) ''server''
   \<and> connectToServer ''ws://localhost:8083'' (Constructed []) (new_manager default_config)
      = createConnection ''server'' ''ws://localhost:8083/ws/server'' (Constructed []) (new_manager default_config)
   \<and> length (sockets (snd (connectToServer ''ws://localhost:8083'' (Constructed []) (new_manager default_config)))) = 1
   \<and> connectToServer ''not a url'' ConstructorThrows (new_manager default_config)
      = (None, setConnectionStatus ''server'' CONNECTING (new_manager default_config))"
proof -
  let ?s = "run [ConnectToServer ''ws://localhost:8083'' (Constructed []), WsOpen 0] (new_manager default_config)"
  let ?n = "new_manager default_config"
  have c: "connections ?s = [(''server'', 0)]"
    by (simp add: step_def connectToServer_def connect_def isConnected_def createConnection_def
        new_manager_def on_open_def Let_def flushMessageQueue_def)
  have o: "socket_open ?s 0"
    by (simp add: step_def connectToServer_def connect_def isConnected_def createConnection_def
        new_manager_def on_open_def Let_def flushMessageQueue_def socket_open_def)
  have i: "isConnected ?s ''server''" using c o by (simp add: isConnected_def)
  have n: "\<not> isConnected ?n ''server''"
    by (simp add: isConnected_def new_manager_def)
  have 1: "connectToServer ''ws://localhost:8083'' (Constructed []) ?s = (Some 0, ?s)"
    using connect_reuses_open_socket_only[of ?s "''server''" "''ws://localhost:8083/ws/server''"
            "Constructed []" "[]" "''ws://localhost:8083''" id "''x''"] i c
    by auto
  have 2: "connectToServer ''ws://localhost:8083'' (Constructed []) ?n
             = createConnection ''server'' ''ws://localhost:8083/ws/server'' (Constructed []) ?n"
    and 3: "length (sockets (snd (createConnection ''server'' ''ws://localhost:8083/ws/server''
                                    (Constructed []) ?n))) = Suc (length (sockets ?n))"
    using connect_reuses_open_socket_only[of ?n "''server''" "''ws://localhost:8083/ws/server''"
            "Constructed []" "[]" "''ws://localhost:8083''" id "''x''"] n
    by auto
  have 4: "connectToServer ''not a url'' ConstructorThrows ?n
             = createConnection ''server'' ''not a url/ws/server'' ConstructorThrows ?n"
    using connect_reuses_open_socket_only[of ?n "''server''" "''not a url/ws/server''"
            ConstructorThrows "[]" "''not a url''" id "''x''"] n
    by auto
  have 5: "sockets ?n = []" by (simp add: new_manager_def)
  show ?thesis using i n 1 2 3 4 5 by (simp add: createConnection_throws)
qed

text \<open>
  Claim C5 as stated fails in the Connecting state: a second \<^verbatim>\<open>connectToServer\<close>
  before the first socket has opened constructs a second socket.
\<close>

theorem connect_while_connecting_counterexample:
  "getConnectionStatus (snd (connectToServer ''ws://localhost:8083'' (Constructed []) (new_manager default_config))) ''server''
     = CONNECTING
   \<and> fst (connectToServer ''ws://localhost:8083'' (Constructed []) (new_manager default_config)) = Some 0
   \<and> fst (connectToServer ''ws://localhost:8083'' (Constructed [])
        (snd (connectToServer ''ws://localhost:8083'' (Constructed []) (new_manager default_config)))) = Some 1
   \<and> length (sockets (snd (connectToServer ''ws://localhost:8083'' (Constructed [])
        (snd (connectToServer ''ws://localhost:8083'' (Constructed []) (new_manager default_config)))))) = 2"
  by (simp add: connectToServer_def connect_def isConnected_def createConnection_def
      new_manager_def Let_def getConnectionStatus_def)


subsection \<open>Claim C7: the queue is flushed when the socket opens\<close>


lemma flush_loop_all_sent:
  "\<forall>i < length q. i < length (send_throws w) \<longrightarrow> \<not> send_throws w ! i \<Longrightarrow>
     flush_loop w q = (w\<lparr>sent := sent w @ q, send_throws := drop (length q) (send_throws w)\<rparr>, [], False)"
proof (induction q arbitrary: w)
  case Nil
  then show ?case by simp
next
  case (Cons m q)
  show ?case
  proof (cases "send_throws w")
    case Nil
    have "flush_loop (w\<lparr>sent := sent w @ [m]\<rparr>) q =
            ((w\<lparr>sent := sent w @ [m]\<rparr>)\<lparr>sent := sent (w\<lparr>sent := sent w @ [m]\<rparr>) @ q,
               send_throws := drop (length q) (send_throws (w\<lparr>sent := sent w @ [m]\<rparr>))\<rparr>, [], False)"
      by (rule Cons.IH) (simp add: Nil)
    then show ?thesis using Nil by (simp add: ws_send_def)
  next
    case (Cons t ts)
    from Cons.prems[rule_format, of 0] Cons have nt: "\<not> t" by simp
    have rest: "\<forall>i < length q. i < length ts \<longrightarrow> \<not> ts ! i"
      using Cons.prems[rule_format, of "Suc i" for i] Cons by auto
    let ?w = "w\<lparr>sent := sent w @ [m], send_throws := ts\<rparr>"
    have "flush_loop ?w q =
            (?w\<lparr>sent := sent ?w @ q, send_throws := drop (length q) (send_throws ?w)\<rparr>, [], False)"
      by (rule Cons.IH) (simp add: rest)
    then show ?thesis using Cons nt by (simp add: ws_send_def)
  qed
qed

lemma flush_loop_throw_at:
  "n < length q \<Longrightarrow> n < length (send_throws w) \<Longrightarrow> send_throws w ! n \<Longrightarrow>
   \<forall>i < n. \<not> send_throws w ! i \<Longrightarrow>
     flush_loop w q = (w\<lparr>sent := sent w @ take n q, send_throws := drop (Suc n) (send_throws w)\<rparr>,
                       drop n q, True)"
proof (induction q arbitrary: w n)
  case Nil
  then show ?case by simp
next
  case (Cons m q)
  from Cons.prems(2) obtain t ts where ts: "send_throws w = t # ts" by (cases "send_throws w") auto
  show ?case
  proof (cases n)
    case 0
    then show ?thesis using Cons.prems ts by (simp add: ws_send_def)
  next
    case (Suc n')
    have nt: "\<not> t" using Cons.prems(4)[rule_format, of 0] ts Suc by simp
    let ?w = "w\<lparr>sent := sent w @ [m], send_throws := ts\<rparr>"
    have "flush_loop ?w q = (?w\<lparr>sent := sent ?w @ take n' q, send_throws := drop (Suc n') (send_throws ?w)\<rparr>,
                       drop n' q, True)"
    proof (rule Cons.IH)
      show "n' < length q" using Cons.prems(1) Suc by simp
      show "n' < length (send_throws ?w)" using Cons.prems(2) ts Suc by simp
      show "send_throws ?w ! n'" using Cons.prems(3) ts Suc by simp
      show "\<forall>i<n'. \<not> send_throws ?w ! i"
        using Cons.prems(4)[rule_format, of "Suc i" for i] ts Suc by auto
    qed
    then show ?thesis using ts nt Suc by (simp add: ws_send_def)
  qed
qed

lemma flushMessageQueue_result:
  assumes q: "messageQueues t k = Some q"
      and m: "map_of (connections t) k = Some w"
      and so: "socket_open t w"
      and f: "flush_loop (sockets t ! w) q = (w', q', threw)"
  shows "sockets (flushMessageQueue k t) = (sockets t)[w := w']"
    and "messageQueues (flushMessageQueue k t) = (messageQueues t)(k \<mapsto> q')"
    and "connections (flushMessageQueue k t) = connections t"
    and "reconnectAttempts (flushMessageQueue k t) = reconnectAttempts t"
    and "connectionStatus (flushMessageQueue k t) = connectionStatus t"
proof -
  show "sockets (flushMessageQueue k t) = (sockets t)[w := w']"
  proof (cases "q = []")
    case True
    then have "w' = sockets t ! w" using f by simp
    then show ?thesis using True q by (simp add: flushMessageQueue_def)
  next
    case False
    then show ?thesis using q m so f by (simp add: flushMessageQueue_def Let_def)
  qed
  show "messageQueues (flushMessageQueue k t) = (messageQueues t)(k \<mapsto> q')"
  proof (cases "q = []")
    case True
    then have "q' = []" using f by simp
    then show ?thesis using True q by (simp add: flushMessageQueue_def fun_upd_idem)
  next
    case False
    then show ?thesis using q m so f by (simp add: flushMessageQueue_def Let_def)
  qed
  show "connections (flushMessageQueue k t) = connections t"
    using q m so f by (simp add: flushMessageQueue_def Let_def)
  show "reconnectAttempts (flushMessageQueue k t) = reconnectAttempts t"
    using q m so f by (simp add: flushMessageQueue_def Let_def)
  show "connectionStatus (flushMessageQueue k t) = connectionStatus t"
    using q m so f by (simp add: flushMessageQueue_def Let_def)
qed

lemma on_open_flush:
  assumes w: "w < length (sockets s)"
      and q: "messageQueues s (owner (sockets s ! w)) = Some q"
      and f: "flush_loop ((sockets s ! w)\<lparr>readyState := WS_OPEN\<rparr>) q = (w', q', threw)"
  shows "sockets (on_open w s) = (sockets s)[w := w']"
    and "messageQueues (on_open w s) = (messageQueues s)(owner (sockets s ! w) \<mapsto> q')"
    and "connections (on_open w s) = AList.update (owner (sockets s ! w)) w (connections s)"
    and "connectionStatus (on_open w s) = (connectionStatus s)(owner (sockets s ! w) \<mapsto> CONNECTED)"
proof -
  let ?k = "owner (sockets s ! w)"
  define s3 where "s3 = startHeartbeat ?k
             ((setConnectionStatus ?k CONNECTED (console (Log_connected ?k) (set_readyState w WS_OPEN s)))
               \<lparr>connections := AList.update ?k w (connections s),
                 reconnectAttempts := (reconnectAttempts s)(?k \<mapsto> 0)\<rparr>)"
  have o: "on_open w s = emit (ConnectedEvt ?k (url (sockets s ! w))) (flushMessageQueue ?k s3)"
    by (simp add: on_open_def Let_def s3_def)
  have s3: "messageQueues s3 = messageQueues s" "connections s3 = AList.update ?k w (connections s)"
    "sockets s3 = (sockets s)[w := (sockets s ! w)\<lparr>readyState := WS_OPEN\<rparr>]"
    "connectionStatus s3 = (connectionStatus s)(?k \<mapsto> CONNECTED)"
    by (simp_all add: s3_def)
  have m: "map_of (connections s3) ?k = Some w" by (simp add: s3 update_conv')
  have so: "socket_open s3 w" using w by (simp add: socket_open_def s3)
  have nth: "sockets s3 ! w = (sockets s ! w)\<lparr>readyState := WS_OPEN\<rparr>" using w by (simp add: s3)
  have q3: "messageQueues s3 ?k = Some q" using q by (simp add: s3)
  have f3: "flush_loop (sockets s3 ! w) q = (w', q', threw)" using f by (simp add: nth)
  note r = flushMessageQueue_result[OF q3 m so f3]
  show "sockets (on_open w s) = (sockets s)[w := w']" using r(1) by (simp add: o s3)
  show "messageQueues (on_open w s) = (messageQueues s)(?k \<mapsto> q')" using r(2) by (simp add: o s3)
  show "connections (on_open w s) = AList.update ?k w (connections s)" using r(3) by (simp add: o s3)
  show "connectionStatus (on_open w s) = (connectionStatus s)(?k \<mapsto> CONNECTED)"
    using r(5) by (simp add: o s3)
qed

text \<open>
  Claim C7. When socket \<open>w\<close> of key \<open>k\<close> opens, the status becomes Connected and the
  queue \<open>q\<close> of \<open>k\<close> is sent on \<open>w\<close> in its order. If none of these sends throws,
  all of \<open>q\<close> is transmitted, the queue is empty, and a message sent afterwards goes
  out behind them. If the send of the message at position \<open>n\<close> is the first to throw,
  the messages before it are transmitted and the queue keeps the message that failed in
  front, followed by the rest unchanged.
\<close>

theorem open_flushes_queue_in_order:
  assumes w: "w < length (sockets s)"
      and k: "k = owner (sockets s ! w)"
      and q: "messageQueues s k = Some q"
      and ts: "ts = send_throws (sockets s ! w)"
  shows "getConnectionStatus (on_open w s) k = CONNECTED
     \<and> ((\<forall>i < length q. i < length ts \<longrightarrow> \<not> ts ! i) \<longrightarrow>
          sent (sockets (on_open w s) ! w) = sent (sockets s ! w) @ q
          \<and> messageQueues (on_open w s) k = Some []
          \<and> ((length q < length ts \<longrightarrow> \<not> ts ! length q) \<longrightarrow>
               sent (sockets (snd (sendMessage k ty pl uuid now (on_open w s))) ! w)
                 = sent (sockets s ! w) @ q
                   @ [\<lparr>mtype = ty, payload = pl, timestamp = now, messageId = uuid\<rparr>]))
     \<and> (\<forall>n. n < length q \<and> n < length ts \<and> ts ! n \<and> (\<forall>i < n. \<not> ts ! i) \<longrightarrow>
          sent (sockets (on_open w s) ! w) = sent (sockets s ! w) @ take n q
          \<and> messageQueues (on_open w s) k = Some (q ! n # drop (Suc n) q))"
proof (intro conjI impI allI)
  let ?w0 = "(sockets s ! w)\<lparr>readyState := WS_OPEN\<rparr>"
  obtain w' q' threw where f: "flush_loop ?w0 q = (w', q', threw)" by (cases "flush_loop ?w0 q") auto
  note r = on_open_flush[OF w q[unfolded k] f]
  show "getConnectionStatus (on_open w s) k = CONNECTED"
    using r(4) by (simp add: getConnectionStatus_def k)
  {
    assume a: "\<forall>i < length q. i < length ts \<longrightarrow> \<not> ts ! i"
    have "flush_loop ?w0 q = (?w0\<lparr>sent := sent ?w0 @ q, send_throws := drop (length q) (send_throws ?w0)\<rparr>, [], False)"
      by (rule flush_loop_all_sent) (use a ts in simp)
    with f have w': "w' = ?w0\<lparr>sent := sent ?w0 @ q, send_throws := drop (length q) (send_throws ?w0)\<rparr>"
      and q': "q' = []" by simp_all
    show s1: "sent (sockets (on_open w s) ! w) = sent (sockets s ! w) @ q"
      using r(1) w w' by simp
    show "messageQueues (on_open w s) k = Some []" using r(2) q' k by simp
    assume b: "length q < length ts \<longrightarrow> \<not> ts ! length q"
    let ?m = "\<lparr>mtype = ty, payload = pl, timestamp = now, messageId = uuid\<rparr>"
    have nth: "sockets (on_open w s) ! w = w'" using r(1) w by simp
    have so: "socket_open (on_open w s) w" using r(1) w w' by (simp add: socket_open_def)
    have mp: "map_of (connections (on_open w s)) k = Some w" using r(3) k by (simp add: update_conv')
    have "ws_send ?m w' = (True, w'\<lparr>sent := sent w' @ [?m], send_throws := tl (send_throws w')\<rparr>)"
    proof (cases "send_throws w'")
      case Nil
      then show ?thesis by (simp add: ws_send_def)
    next
      case (Cons t rest)
      then have "length q < length ts" using w' ts by (cases "length q < length ts") auto
      moreover have "t = ts ! length q" using Cons w' ts calculation
        by (simp add: hd_drop_conv_nth[symmetric])
      ultimately show ?thesis using b Cons by (simp add: ws_send_def)
    qed
    then have "sockets (snd (sendMessage k ty pl uuid now (on_open w s))) ! w
                 = w'\<lparr>sent := sent w' @ [?m], send_throws := tl (send_throws w')\<rparr>"
      using mp so nth r(1) w by (simp add: sendMessage_def Let_def)
    then show "sent (sockets (snd (sendMessage k ty pl uuid now (on_open w s))) ! w)
                 = sent (sockets s ! w) @ q @ [?m]"
      using w' by simp
  }
  {
    fix n
    assume a: "n < length q \<and> n < length ts \<and> ts ! n \<and> (\<forall>i < n. \<not> ts ! i)"
    have "flush_loop ?w0 q = (?w0\<lparr>sent := sent ?w0 @ take n q, send_throws := drop (Suc n) (send_throws ?w0)\<rparr>,
                       drop n q, True)"
      by (rule flush_loop_throw_at) (use a ts in simp_all)
    with f have w': "w' = ?w0\<lparr>sent := sent ?w0 @ take n q, send_throws := drop (Suc n) (send_throws ?w0)\<rparr>"
      and q': "q' = drop n q" by simp_all
    show "sent (sockets (on_open w s) ! w) = sent (sockets s ! w) @ take n q"
      using r(1) w w' by simp
    show "messageQueues (on_open w s) k = Some (q ! n # drop (Suc n) q)"
      using r(2) q' k a by (simp add: Cons_nth_drop_Suc)
  }
qed



text \<open>Two messages sent while disconnected, then a connect whose socket throws as \<open>ts\<close> says.\<close>

definition two_queued :: "bool list \<Rightarrow> manager" where
  "two_queued ts = run [SendMessage ''server'' ''sketch_updated'' None ''id-1'' 1,
                        SendMessage ''server'' ''server_status'' None ''id-2'' 2,
                        ConnectToServer ''ws://localhost:8083'' (Constructed ts)] (new_manager default_config)"

lemma two_queued_state:
  "sockets (two_queued ts) = [\<lparr>owner = ''server'', url = ''ws://localhost:8083/ws/server'',
                               readyState = WS_CONNECTING, sent = [], send_throws = ts\<rparr>]"
  "messageQueues (two_queued ts) ''server'' =
     Some [\<lparr>mtype = ''sketch_updated'', payload = None, timestamp = 1, messageId = ''id-1''\<rparr>,
           \<lparr>mtype = ''server_status'', payload = None, timestamp = 2, messageId = ''id-2''\<rparr>]"
  by (simp_all add: two_queued_def step_def sendMessage_def queueMessage_def connectToServer_def
      connect_def isConnected_def createConnection_def new_manager_def default_config_def Let_def)

theorem open_flushes_queue_witness:
  "sent (sockets (on_open 0 (two_queued [])) ! 0) =
     [\<lparr>mtype = ''sketch_updated'', payload = None, timestamp = 1, messageId = ''id-1''\<rparr>,
      \<lparr>mtype = ''server_status'', payload = None, timestamp = 2, messageId = ''id-2''\<rparr>]
   \<and> messageQueues (on_open 0 (two_queued [])) ''server'' = Some []
   \<and> sent (sockets (snd (sendMessage ''server'' ''error'' None ''id-3'' 3 (on_open 0 (two_queued [])))) ! 0) =
     [\<lparr>mtype = ''sketch_updated'', payload = None, timestamp = 1, messageId = ''id-1''\<rparr>,
      \<lparr>mtype = ''server_status'', payload = None, timestamp = 2, messageId = ''id-2''\<rparr>,
      \<lparr>mtype = ''error'', payload = None, timestamp = 3, messageId = ''id-3''\<rparr>]
   \<and> sent (sockets (on_open 0 (two_queued [False, True])) ! 0) =
     [\<lparr>mtype = ''sketch_updated'', payload = None, timestamp = 1, messageId = ''id-1''\<rparr>]
   \<and> messageQueues (on_open 0 (two_queued [False, True])) ''server'' =
     Some [\<lparr>mtype = ''server_status'', payload = None, timestamp = 2, messageId = ''id-2''\<rparr>]"
proof -
  let ?q = "[\<lparr>mtype = ''sketch_updated'', payload = None, timestamp = 1, messageId = ''id-1''\<rparr>,
           \<lparr>mtype = ''server_status'', payload = None, timestamp = 2, messageId = ''id-2''\<rparr>]"
  have a: "0 < length (sockets (two_queued ts))" "''server'' = owner (sockets (two_queued ts) ! 0)"
    "messageQueues (two_queued ts) ''server'' = Some ?q" "ts = send_throws (sockets (two_queued ts) ! 0)"
    for ts by (simp_all add: two_queued_state)
  from open_flushes_queue_in_order[OF a(1)[of "[]"] a(2)[of "[]"] a(3)[of "[]"] a(4)[of "[]"],
        of "''error''" None "''id-3''" 3]
  have 1: "sent (sockets (on_open 0 (two_queued [])) ! 0) = ?q
       \<and> messageQueues (on_open 0 (two_queued [])) ''server'' = Some []
       \<and> sent (sockets (snd (sendMessage ''server'' ''error'' None ''id-3'' 3 (on_open 0 (two_queued [])))) ! 0) =
         ?q @ [\<lparr>mtype = ''error'', payload = None, timestamp = 3, messageId = ''id-3''\<rparr>]"
    by (simp add: two_queued_state)
  from open_flushes_queue_in_order[OF a(1)[of "[False, True]"] a(2)[of "[False, True]"]
         a(3)[of "[False, True]"] a(4)[of "[False, True]"], of "''error''" None "''id-3''" 3]
  have "1 < length ?q \<and> 1 < length [False, True] \<and> [False, True] ! 1 \<and> (\<forall>i < 1. \<not> [False, True] ! i) \<longrightarrow>
          sent (sockets (on_open 0 (two_queued [False, True])) ! 0)
            = sent (sockets (two_queued [False, True]) ! 0) @ take 1 ?q
          \<and> messageQueues (on_open 0 (two_queued [False, True])) ''server'' = Some (?q ! 1 # drop (Suc 1) ?q)"
    by blast
  then have 2: "sent (sockets (on_open 0 (two_queued [False, True])) ! 0) = take 1 ?q
          \<and> messageQueues (on_open 0 (two_queued [False, True])) ''server'' = Some (?q ! 1 # drop (Suc 1) ?q)"
    by (simp add: two_queued_state)
  from 1 2 show ?thesis by simp
qed


subsection \<open>Claim C6: the queue is bounded and drops its oldest message\<close>

text \<open>
  Every queue of the manager is within the configured capacity, and empty when the
  capacity is 0 or less. The capacity is an integer here, as the default is.
\<close>

definition queues_bounded :: "manager \<Rightarrow> bool" where
  "queues_bounded s \<longleftrightarrow>
     (\<forall>k q. messageQueues s k = Some q \<longrightarrow> int (length q) \<le> max 0 (messageQueueMaxSize (config s)))"

lemma queues_bounded_same:
  "messageQueues s' = messageQueues s \<Longrightarrow> config s' = config s \<Longrightarrow> queues_bounded s \<Longrightarrow> queues_bounded s'"
  by (simp add: queues_bounded_def)

lemma queues_bounded_closeConnection:
  "queues_bounded s \<Longrightarrow> queues_bounded (closeConnection k s)"
  by (simp add: queues_bounded_def)

lemma queues_bounded_fold_close:
  "queues_bounded s \<Longrightarrow> queues_bounded (fold closeConnection ks s)"
  by (induction ks arbitrary: s) (simp_all add: queues_bounded_closeConnection)

lemma flush_loop_length: "flush_loop w q = (w', q', t) \<Longrightarrow> length q' \<le> length q"
proof (induction q arbitrary: w)
  case Nil
  then show ?case by simp
next
  case (Cons m q)
  show ?case
  proof (cases "ws_send m w")
    case (Pair ok w1)
    show ?thesis
    proof (cases ok)
      case True
      with Cons.prems Pair have "flush_loop w1 q = (w', q', t)" by simp
      from Cons.IH[OF this] show ?thesis by simp
    next
      case False
      with Cons.prems Pair show ?thesis by auto
    qed
  qed
qed

lemma queues_bounded_flush:
  assumes "queues_bounded s" shows "queues_bounded (flushMessageQueue k s)"
proof -
  have "\<exists>q0. messageQueues s k' = Some q0 \<and> length q \<le> length q0"
    if "messageQueues (flushMessageQueue k s) k' = Some q" for k' q
    using that
    by (auto simp: flushMessageQueue_def Let_def split: option.splits prod.splits if_splits
          dest: flush_loop_length)
  then have "int (length q) \<le> max 0 (messageQueueMaxSize (config s))"
    if "messageQueues (flushMessageQueue k s) k' = Some q" for k' q
  proof -
    from that obtain q0 where q0: "messageQueues s k' = Some q0" "length q \<le> length q0"
      using \<open>\<And>q k'. messageQueues (flushMessageQueue k s) k' = Some q \<Longrightarrow>
               \<exists>q0. messageQueues s k' = Some q0 \<and> length q \<le> length q0\<close> by blast
    from assms q0(1) have "int (length q0) \<le> max 0 (messageQueueMaxSize (config s))"
      by (simp add: queues_bounded_def)
    with q0(2) show ?thesis by linarith
  qed
  then show ?thesis by (simp add: queues_bounded_def)
qed

lemma queues_bounded_queueMessage:
  assumes "queues_bounded s"
  shows "queues_bounded (queueMessage k m s)"
  using assms unfolding queues_bounded_def queueMessage_def
  by (auto simp: Let_def split: option.splits)


lemma queues_bounded_sendMessage:
  assumes "queues_bounded s"
  shows "queues_bounded (snd (sendMessage k ty pl u n s))"
proof -
  let ?m = "\<lparr>mtype = ty, payload = pl, timestamp = n, messageId = u\<rparr>"
  have "snd (sendMessage k ty pl u n s) = queueMessage k ?m s
        \<or> (messageQueues (snd (sendMessage k ty pl u n s)) = messageQueues s)"
    by (simp add: sendMessage_def Let_def split: option.splits prod.splits bool.splits)
  then show ?thesis
    using assms queues_bounded_queueMessage[OF assms, of k ?m]
    by (auto intro: queues_bounded_same)
qed

lemma queues_bounded_on_open:
  assumes "queues_bounded s" shows "queues_bounded (on_open w s)"
proof -
  let ?k = "owner (sockets s ! w)"
  let ?s3 = "startHeartbeat ?k
             ((setConnectionStatus ?k CONNECTED (console (Log_connected ?k) (set_readyState w WS_OPEN s)))
               \<lparr>connections := AList.update ?k w (connections s),
                 reconnectAttempts := (reconnectAttempts s)(?k \<mapsto> 0)\<rparr>)"
  have "queues_bounded ?s3" using assms by (simp add: queues_bounded_def)
  then have "queues_bounded (flushMessageQueue ?k ?s3)" by (rule queues_bounded_flush)
  then have "queues_bounded (emit (ConnectedEvt ?k (url (sockets s ! w))) (flushMessageQueue ?k ?s3))"
    by (simp add: queues_bounded_def)
  then show ?thesis by (simp add: on_open_def Let_def)
qed

lemma queues_bounded_step:
  assumes "queues_bounded s"
  shows "queues_bounded (step e s)"
proof (cases e)
  case (SendMessage k ty pl u n)
  then show ?thesis using queues_bounded_sendMessage[OF assms] by (simp add: step_def)
next
  case (WsOpen w)
  then show ?thesis using assms(1) by (simp add: step_def queues_bounded_on_open)
next
  case (CloseConnection k)
  then show ?thesis using assms(1) by (simp add: step_def queues_bounded_closeConnection)
next
  case CloseAllConnections
  then show ?thesis using assms(1) by (simp add: step_def closeAllConnections_def queues_bounded_fold_close)
next
  case Dispose
  then show ?thesis using assms(1)
    by (simp add: step_def dispose_def closeAllConnections_def queues_bounded_fold_close)
next
  case (ConnectToSketch n b c)
  then show ?thesis using assms(1)
    by (auto simp: step_def connectToSketch_def intro: queues_bounded_same)
next
  case (ConnectToServer b c)
  then show ?thesis using assms(1)
    by (auto simp: step_def connectToServer_def intro: queues_bounded_same)
next
  case (WsMessage w d)
  then show ?thesis using assms(1) by (auto simp: step_def intro: queues_bounded_same)
next
  case (WsClose w cd r)
  then show ?thesis using assms(1) by (auto simp: step_def intro: queues_bounded_same)
next
  case (WsError w msg)
  then show ?thesis using assms(1) by (auto simp: step_def intro: queues_bounded_same)
next
  case (PeerClosing w)
  then show ?thesis using assms(1) by (auto simp: step_def intro: queues_bounded_same)
next
  case (TimeoutFires t thr)
  then show ?thesis using assms(1) by (auto simp: step_def intro: queues_bounded_same)
next
  case (HeartbeatFires t u n)
  then show ?thesis using assms(1) by (auto simp: step_def intro: queues_bounded_same)
qed

lemma queues_bounded_run: "queues_bounded s \<Longrightarrow> queues_bounded (run es s)"
  by (induction es arbitrary: s) (simp_all add: queues_bounded_step)

text \<open>
  Claim C6, as amended. After any sequence of operations and events on a new manager:
  with a capacity of at least 0 every queue holds at most \<^verbatim>\<open>messageQueueMaxSize\<close>
  messages. With a capacity of at least 1, queuing a message \<open>m\<close> on a queue \<open>q\<close> that is
  at capacity leaves \<open>tl q @ [m]\<close>, where \<open>q\<close> is not empty: the oldest message is gone,
  the others keep their order and \<open>m\<close> is last. Below capacity \<open>m\<close> is appended. With a
  capacity of 0 or less every queue is empty, and is empty again after a message was
  queued: the message queued is itself the one removed.
\<close>

theorem queue_bounded_drop_oldest:
  assumes s: "s = run es (new_manager cfg)"
  shows "(0 \<le> messageQueueMaxSize cfg \<longrightarrow>
            (\<forall>q. messageQueues s k = Some q \<longrightarrow> int (length q) \<le> messageQueueMaxSize cfg))
       \<and> (1 \<le> messageQueueMaxSize cfg \<longrightarrow>
            (\<forall>q. messageQueues s k = Some q \<and> int (length q) = messageQueueMaxSize cfg \<longrightarrow>
               q \<noteq> [] \<and> messageQueues (queueMessage k m s) k = Some (tl q @ [m])))
       \<and> (\<forall>q. messageQueues s k = Some q \<and> int (length q) < messageQueueMaxSize cfg \<longrightarrow>
            messageQueues (queueMessage k m s) k = Some (q @ [m]))
       \<and> (messageQueueMaxSize cfg \<le> 0 \<longrightarrow>
            (\<forall>q. messageQueues s k = Some q \<longrightarrow> q = [])
            \<and> messageQueues (queueMessage k m s) k = Some [])"
proof -
  have "queues_bounded (new_manager cfg)" by (simp add: queues_bounded_def new_manager_def)
  moreover have c: "config (new_manager cfg) = cfg" by (simp add: new_manager_def)
  ultimately have "queues_bounded s" using s by (simp add: queues_bounded_run)
  moreover have cs: "config s = cfg" using s c by simp
  ultimately have b: "\<And>q. messageQueues s k = Some q \<Longrightarrow> int (length q) \<le> max 0 (messageQueueMaxSize cfg)"
    by (simp add: queues_bounded_def)
  have e: "messageQueueMaxSize cfg \<le> 0 \<Longrightarrow> messageQueues s k = Some q \<Longrightarrow> q = []" for q
    using b[of q] by simp
  have 1: "0 \<le> messageQueueMaxSize cfg \<longrightarrow>
            (\<forall>q. messageQueues s k = Some q \<longrightarrow> int (length q) \<le> messageQueueMaxSize cfg)"
    using b by fastforce
  have 2: "1 \<le> messageQueueMaxSize cfg \<longrightarrow>
            (\<forall>q. messageQueues s k = Some q \<and> int (length q) = messageQueueMaxSize cfg \<longrightarrow>
               q \<noteq> [] \<and> messageQueues (queueMessage k m s) k = Some (tl q @ [m]))"
  proof (intro impI allI)
    fix q
    assume c1: "1 \<le> messageQueueMaxSize cfg"
       and q: "messageQueues s k = Some q \<and> int (length q) = messageQueueMaxSize cfg"
    then have ne: "q \<noteq> []" by auto
    then have "tl (q @ [m]) = tl q @ [m]" by simp
    then show "q \<noteq> [] \<and> messageQueues (queueMessage k m s) k = Some (tl q @ [m])"
      using ne q cs by (simp add: queueMessage_def Let_def)
  qed
  have 3: "\<forall>q. messageQueues s k = Some q \<and> int (length q) < messageQueueMaxSize cfg \<longrightarrow>
            messageQueues (queueMessage k m s) k = Some (q @ [m])"
    using cs by (auto simp: queueMessage_def Let_def)
  have 4: "messageQueueMaxSize cfg \<le> 0 \<longrightarrow>
            (\<forall>q. messageQueues s k = Some q \<longrightarrow> q = [])
            \<and> messageQueues (queueMessage k m s) k = Some []"
    using cs e by (auto simp: queueMessage_def Let_def split: option.splits)
  from 1 2 3 4 show ?thesis by blast
qed


definition small_config :: WebSocketConfig where
  "small_config = default_config\<lparr>messageQueueMaxSize := 2\<rparr>"

definition numbered :: "nat \<Rightarrow> ws_message" where
  "numbered i = \<lparr>mtype = ''sketch_updated'', payload = None, timestamp = int i, messageId = ''id''\<rparr>"

theorem queue_bounded_drop_oldest_witness:
  "messageQueues (run [SendMessage ''server'' ''sketch_updated'' None ''id'' 1,
                       SendMessage ''server'' ''sketch_updated'' None ''id'' 2] (new_manager small_config))
     ''server'' = Some [numbered 1, numbered 2]
   \<and> messageQueues (queueMessage ''server'' (numbered 3)
        (run [SendMessage ''server'' ''sketch_updated'' None ''id'' 1,
              SendMessage ''server'' ''sketch_updated'' None ''id'' 2] (new_manager small_config)))
     ''server'' = Some [numbered 2, numbered 3]
   \<and> messageQueues (queueMessage ''server'' (numbered 2)
        (run [SendMessage ''server'' ''sketch_updated'' None ''id'' 1] (new_manager small_config)))
     ''server'' = Some [numbered 1, numbered 2]
   \<and> messageQueueMaxSize (default_config\<lparr>messageQueueMaxSize := 0\<rparr>) \<le> 0
   \<and> messageQueues (queueMessage ''server'' (numbered 2)
        (run [SendMessage ''server'' ''sketch_updated'' None ''id'' 1]
           (new_manager (default_config\<lparr>messageQueueMaxSize := 0\<rparr>))))
     ''server'' = Some []"
proof -
  let ?es2 = "[SendMessage ''server'' ''sketch_updated'' None ''id'' 1,
               SendMessage ''server'' ''sketch_updated'' None ''id'' 2]"
  let ?es1 = "[SendMessage ''server'' ''sketch_updated'' None ''id'' 1]"
  have cap: "1 \<le> messageQueueMaxSize small_config" by (simp add: small_config_def)
  have q2: "messageQueues (run ?es2 (new_manager small_config)) ''server'' = Some [numbered 1, numbered 2]"
    by (simp add: step_def sendMessage_def queueMessage_def new_manager_def small_config_def
        default_config_def numbered_def Let_def)
  have q1: "messageQueues (run ?es1 (new_manager small_config)) ''server'' = Some [numbered 1]"
    by (simp add: step_def sendMessage_def queueMessage_def new_manager_def small_config_def
        default_config_def numbered_def Let_def)
  from queue_bounded_drop_oldest[OF refl, of small_config ?es2 "''server''" "numbered 3"] q2 cap
  have a: "messageQueues (queueMessage ''server'' (numbered 3) (run ?es2 (new_manager small_config))) ''server''
             = Some [numbered 2, numbered 3]"
    by (simp add: small_config_def)
  from queue_bounded_drop_oldest[OF refl, of small_config ?es1 "''server''" "numbered 2"] q1
  have b: "messageQueues (queueMessage ''server'' (numbered 2) (run ?es1 (new_manager small_config))) ''server''
             = Some [numbered 1, numbered 2]"
    by (simp add: small_config_def)
  have z: "messageQueueMaxSize (default_config\<lparr>messageQueueMaxSize := 0\<rparr>) \<le> 0" by simp
  from queue_bounded_drop_oldest[OF refl, of "default_config\<lparr>messageQueueMaxSize := 0\<rparr>" ?es1
         "''server''" "numbered 2"] z
  have c: "messageQueues (queueMessage ''server'' (numbered 2)
             (run ?es1 (new_manager (default_config\<lparr>messageQueueMaxSize := 0\<rparr>)))) ''server'' = Some []"
    by blast
  from q2 a b z c show ?thesis by simp
qed

text \<open>
  Claim C6 as it was stated fails at the capacities below 1. With capacity 0 the empty
  queue is at capacity, and the message queued on it is pushed and shifted out again: it
  does not survive, and no older entry is evicted. With capacity \<open>- 1\<close> the same happens,
  and the queue, of length 0, is over its capacity.
\<close>

theorem queue_capacity_below_one_counterexample:
  "messageQueueMaxSize (config (new_manager (default_config\<lparr>messageQueueMaxSize := 0\<rparr>))) = 0
   \<and> messageQueues (new_manager (default_config\<lparr>messageQueueMaxSize := 0\<rparr>)) ''server'' = None
   \<and> messageQueues (step (SendMessage ''server'' ''sketch_updated'' None ''id'' 1)
        (new_manager (default_config\<lparr>messageQueueMaxSize := 0\<rparr>))) ''server'' = Some []
   \<and> messageQueueMaxSize (config (step (SendMessage ''server'' ''sketch_updated'' None ''id'' 1)
        (new_manager (default_config\<lparr>messageQueueMaxSize := - 1\<rparr>)))) = - 1
   \<and> messageQueues (step (SendMessage ''server'' ''sketch_updated'' None ''id'' 1)
        (new_manager (default_config\<lparr>messageQueueMaxSize := - 1\<rparr>))) ''server'' = Some []
   \<and> int (length ([] :: ws_message list)) > - 1"
  by (simp add: step_def sendMessage_def queueMessage_def new_manager_def default_config_def Let_def)


subsection \<open>Claim C3: the backoff schedule and the attempts counter\<close>


lemma handleReconnection_schedules:
  assumes "int (getReconnectAttempts s k) < maxReconnectAttempts (config s)"
  shows "armed (handleReconnection k s) = armed s @
           [\<lparr>timer_id = timer_count s,
             delay = min (reconnectInterval (config s)
                           * reconnectBackoffMultiplier (config s) ^ getReconnectAttempts s k)
                         (maxReconnectInterval (config s)),
             callback = ReconnectTimer k (getReconnectAttempts s k + 1)\<rparr>]"
    and "getReconnectAttempts (handleReconnection k s) k = getReconnectAttempts s k + 1"
    and "getConnectionStatus (handleReconnection k s) k = RECONNECTING"
  using assms
  by (simp_all add: handleReconnection_def Let_def getReconnectAttempts_def getConnectionStatus_def)

lemma handleConnectionClose_schedules:
  assumes "cd \<noteq> 1000" "int (getReconnectAttempts s k) < maxReconnectAttempts (config s)"
  shows "last (armed (handleConnectionClose k cd r s)) =
           \<lparr>timer_id = timer_count s,
             delay = min (reconnectInterval (config s)
                           * reconnectBackoffMultiplier (config s) ^ getReconnectAttempts s k)
                         (maxReconnectInterval (config s)),
             callback = ReconnectTimer k (getReconnectAttempts s k + 1)\<rparr>"
    and "getReconnectAttempts (handleConnectionClose k cd r s) k = getReconnectAttempts s k + 1"
    and "getConnectionStatus (handleConnectionClose k cd r s) k = RECONNECTING"
proof -
  let ?s1 = "stopHeartbeat k (s\<lparr>connections := AList.delete k (connections s)\<rparr>)"
  have a: "getReconnectAttempts ?s1 k = getReconnectAttempts s k" "config ?s1 = config s"
    "timer_count ?s1 = timer_count s"
    by (simp_all add: getReconnectAttempts_def)
  have h: "handleConnectionClose k cd r s = handleReconnection k ?s1"
    using assms by (simp add: handleConnectionClose_def Let_def a)
  have b: "int (getReconnectAttempts ?s1 k) < maxReconnectAttempts (config ?s1)"
    using assms(2) by (simp add: a)
  note r = handleReconnection_schedules[OF b]
  show "last (armed (handleConnectionClose k cd r s)) =
           \<lparr>timer_id = timer_count s,
             delay = min (reconnectInterval (config s)
                           * reconnectBackoffMultiplier (config s) ^ getReconnectAttempts s k)
                         (maxReconnectInterval (config s)),
             callback = ReconnectTimer k (getReconnectAttempts s k + 1)\<rparr>"
    by (simp add: h r(1) a del: stopHeartbeat_fields)
  show "getReconnectAttempts (handleConnectionClose k cd r s) k = getReconnectAttempts s k + 1"
    by (simp add: h r(2) a del: stopHeartbeat_fields)
  show "getConnectionStatus (handleConnectionClose k cd r s) k = RECONNECTING"
    by (simp add: h r(3))
qed

text \<open>Consecutive failures of key \<open>k\<close>: one abnormal close after the other.\<close>

fun failures :: "key \<Rightarrow> (int \<times> string) list \<Rightarrow> manager \<Rightarrow> manager" where
  "failures k [] s = s"
| "failures k ((cd, r) # cs) s = failures k cs (handleConnectionClose k cd r s)"

lemma failures_snoc: "failures k (cs @ [(cd, r)]) s = handleConnectionClose k cd r (failures k cs s)"
  by (induction cs arbitrary: s) auto

lemma failures_config [simp]: "config (failures k cs s) = config s"
  by (induction cs arbitrary: s) auto

lemma failures_attempts:
  "\<forall>c \<in> set cs. fst c \<noteq> 1000 \<Longrightarrow>
   int (getReconnectAttempts s k + length cs) \<le> maxReconnectAttempts (config s) \<Longrightarrow>
     getReconnectAttempts (failures k cs s) k = getReconnectAttempts s k + length cs"
proof (induction cs rule: rev_induct)
  case Nil
  then show ?case by simp
next
  case (snoc c cs)
  obtain cd r where c: "c = (cd, r)" by (cases c)
  have ih: "getReconnectAttempts (failures k cs s) k = getReconnectAttempts s k + length cs"
    using snoc by simp
  have "int (getReconnectAttempts (failures k cs s) k) < maxReconnectAttempts (config (failures k cs s))"
    using snoc.prems(2) ih by simp
  from handleConnectionClose_schedules(2)[OF _ this, of cd r] snoc.prems(1) c ih
  show ?case by (simp add: failures_snoc)
qed


lemma attempts_handleConnectionClose:
  "getReconnectAttempts s k \<le> getReconnectAttempts (handleConnectionClose k' cd r s) k"
proof -
  let ?s1 = "stopHeartbeat k' (s\<lparr>connections := AList.delete k' (connections s)\<rparr>)"
  have "getReconnectAttempts ?s1 k = getReconnectAttempts s k" by simp
  then show ?thesis
    using attempts_handleReconnection[of ?s1 k k']
    by (simp add: handleConnectionClose_def Let_def)
qed

lemma attempts_handleConnectionError:
  "getReconnectAttempts s k \<le> getReconnectAttempts (handleConnectionError k' em s) k"
  using attempts_handleReconnection[of "emit (SocketErrorEvt k' em) s" k k']
  by (simp add: handleConnectionError_def Let_def)

lemma attempts_on_close:
  "getReconnectAttempts s k \<le> getReconnectAttempts (on_close w cd r s) k"
  using attempts_handleConnectionClose[of "console (Log_closed (owner (sockets s ! w)) cd r) (set_readyState w WS_CLOSED s)" k]
  by (simp add: on_close_def Let_def)

lemma attempts_on_error:
  "getReconnectAttempts s k \<le> getReconnectAttempts (on_error w em s) k"
  using attempts_handleConnectionError[of "console (Error_socket (owner (sockets s ! w)) em) s" k]
  by (simp add: on_error_def Let_def)

lemma attempts_step:
  assumes "getReconnectAttempts (step e s) k < getReconnectAttempts s k"
  shows "(\<exists>w. e = WsOpen w \<and> w < length (sockets s) \<and> owner (sockets s ! w) = k)
         \<or> e = CloseConnection k \<or> e = CloseAllConnections \<or> e = Dispose"
proof (cases e)
  case (WsOpen w)
  then show ?thesis using assms
    by (auto simp: step_def getReconnectAttempts_def attempts_on_open split: if_splits)
next
  case (CloseConnection k')
  then show ?thesis using assms
    by (auto simp: step_def getReconnectAttempts_def split: if_splits)
next
  case (WsClose w cd r)
  then show ?thesis using assms attempts_on_close[of s k w cd r]
    by (auto simp: step_def split: if_splits)
next
  case (WsError w em)
  then show ?thesis using assms attempts_on_error[of s k w em]
    by (auto simp: step_def split: if_splits)
next
  case (ConnectToSketch n b c)
  then show ?thesis using assms
    by (simp add: step_def connectToSketch_def getReconnectAttempts_def)
next
  case (ConnectToServer b c)
  then show ?thesis using assms
    by (simp add: step_def connectToServer_def getReconnectAttempts_def)
next
  case (SendMessage k' ty pl u n)
  then show ?thesis using assms by (simp add: step_def getReconnectAttempts_def)
next
  case (WsMessage w d)
  then show ?thesis using assms by (simp add: step_def getReconnectAttempts_def split: if_splits)
next
  case (PeerClosing w)
  then show ?thesis using assms by (simp add: step_def split: if_splits)
next
  case (TimeoutFires t thr)
  then show ?thesis using assms attempts_timeout_fires[of s k t thr] by (simp add: step_def)
next
  case (HeartbeatFires t u n)
  then show ?thesis using assms by (simp add: step_def getReconnectAttempts_def)
qed simp_all

text \<open>Only \<^verbatim>\<open>handleReconnection\<close> raises a counter, and only below the maximum.\<close>

lemma handleReconnection_raises:
  assumes "getReconnectAttempts s k < getReconnectAttempts (handleReconnection k' s) k"
  shows "k' = k" and "int (getReconnectAttempts s k) < maxReconnectAttempts (config s)"
  using assms
  by (auto simp: handleReconnection_def Let_def getReconnectAttempts_def split: if_splits)

definition same_counters :: "manager \<Rightarrow> manager \<Rightarrow> bool" where
  "same_counters s1 s \<longleftrightarrow>
     reconnectAttempts s1 = reconnectAttempts s \<and> config s1 = config s \<and> timer_count s1 = timer_count s"

lemma same_counters_attempts: "same_counters s1 s \<Longrightarrow> getReconnectAttempts s1 k = getReconnectAttempts s k"
  by (simp add: same_counters_def getReconnectAttempts_def)

lemma close_raises:
  assumes "getReconnectAttempts s k < getReconnectAttempts (handleConnectionClose k' cd r s) k"
  shows "\<exists>s1. handleConnectionClose k' cd r s = handleReconnection k' s1 \<and> same_counters s1 s"
proof -
  let ?s1 = "stopHeartbeat k' (s\<lparr>connections := AList.delete k' (connections s)\<rparr>)"
  have sc: "same_counters ?s1 s" by (simp add: same_counters_def)
  show ?thesis
  proof (cases "cd = 1000 \<or> int (getReconnectAttempts ?s1 k') \<ge> maxReconnectAttempts (config ?s1)")
    case True
    then have "handleConnectionClose k' cd r s
                 = emit (DisconnectedEvt k' cd r) (setConnectionStatus k' DISCONNECTED ?s1)"
      by (simp add: handleConnectionClose_def Let_def)
    then have "getReconnectAttempts (handleConnectionClose k' cd r s) k = getReconnectAttempts s k"
      by simp
    then show ?thesis using assms by simp
  next
    case False
    then have "handleConnectionClose k' cd r s = handleReconnection k' ?s1"
      by (simp add: handleConnectionClose_def Let_def)
    then show ?thesis using sc by blast
  qed
qed

lemma error_raises:
  assumes "getReconnectAttempts s k < getReconnectAttempts (handleConnectionError k' em s) k"
  shows "\<exists>s1. handleConnectionError k' em s = handleReconnection k' s1 \<and> same_counters s1 s"
proof -
  let ?s1 = "emit (SocketErrorEvt k' em) s"
  have sc: "same_counters ?s1 s" by (simp add: same_counters_def)
  show ?thesis
  proof (cases "getConnectionStatus ?s1 k' = CONNECTED")
    case True
    then have "handleConnectionError k' em s = handleReconnection k' ?s1"
      by (simp add: handleConnectionError_def Let_def)
    then show ?thesis using sc by blast
  next
    case False
    then have "handleConnectionError k' em s = ?s1" by (simp add: handleConnectionError_def Let_def)
    then show ?thesis using assms by simp
  qed
qed

lemma timeout_raises:
  assumes "getReconnectAttempts s k < getReconnectAttempts (timeout_fires t thr s) k"
  shows "\<exists>k' s1. timeout_fires t thr s = handleReconnection k' s1 \<and> same_counters s1 s"
proof (cases "find (\<lambda>x. timer_id x = t) (armed s)")
  case None
  then show ?thesis using assms by (simp add: timeout_fires_def)
next
  case (Some x)
  show ?thesis
  proof (cases "callback x")
    case (ReconnectTimer k' n)
    let ?s2 = "emit (ReconnectRequested k' n)
                 ((clear_timer t s)\<lparr>reconnectTimers := (reconnectTimers (clear_timer t s))(k' := None)\<rparr>)"
    show ?thesis
    proof (cases thr)
      case True
      then have "timeout_fires t thr s = handleReconnection k' (console (Error_reconnection k') ?s2)"
        using Some ReconnectTimer by (simp add: timeout_fires_def Let_def)
      moreover have "same_counters (console (Error_reconnection k') ?s2) s"
        by (simp add: same_counters_def)
      ultimately show ?thesis by blast
    next
      case False
      then have "timeout_fires t thr s = ?s2"
        using Some ReconnectTimer by (simp add: timeout_fires_def Let_def)
      then have "getReconnectAttempts (timeout_fires t thr s) k = getReconnectAttempts s k"
        by (simp add: getReconnectAttempts_def)
      then show ?thesis using assms by simp
    qed
  next
    case (ConnectTimeout k' w)
    then have "getReconnectAttempts (timeout_fires t thr s) k = getReconnectAttempts s k"
      using Some by (simp add: timeout_fires_def Let_def getReconnectAttempts_def)
    then show ?thesis using assms by simp
  next
    case (HeartbeatTimer k')
    then show ?thesis using Some assms by (simp add: timeout_fires_def)
  qed
qed

lemma attempts_fold_close:
  "getReconnectAttempts (fold closeConnection ks s) k \<le> getReconnectAttempts s k"
proof (induction ks arbitrary: s)
  case Nil
  then show ?case by simp
next
  case (Cons a ks)
  have "getReconnectAttempts (closeConnection a s) k \<le> getReconnectAttempts s k"
    by (simp add: getReconnectAttempts_def)
  with Cons[of "closeConnection a s"] show ?case by simp
qed

lemma raise_is_reconnection:
  assumes "getReconnectAttempts s k < getReconnectAttempts (step e s) k"
  shows "\<exists>k' s1. step e s = handleReconnection k' s1 \<and> same_counters s1 s"
proof (cases e)
  case (WsClose w cd r)
  let ?s0 = "console (Log_closed (owner (sockets s ! w)) cd r) (set_readyState w WS_CLOSED s)"
  have sc: "same_counters ?s0 s" by (simp add: same_counters_def)
  have st: "step e s = handleConnectionClose (owner (sockets s ! w)) cd r ?s0"
    using WsClose assms by (auto simp: step_def on_close_def Let_def split: if_splits)
  then have "getReconnectAttempts ?s0 k
               < getReconnectAttempts (handleConnectionClose (owner (sockets s ! w)) cd r ?s0) k"
    using assms same_counters_attempts[OF sc, of k] by simp
  from close_raises[OF this] show ?thesis using st sc by (auto simp: same_counters_def)
next
  case (WsError w em)
  let ?s0 = "console (Error_socket (owner (sockets s ! w)) em) s"
  have sc: "same_counters ?s0 s" by (simp add: same_counters_def)
  have st: "step e s = handleConnectionError (owner (sockets s ! w)) em ?s0"
    using WsError assms by (auto simp: step_def on_error_def Let_def split: if_splits)
  then have "getReconnectAttempts ?s0 k
               < getReconnectAttempts (handleConnectionError (owner (sockets s ! w)) em ?s0) k"
    using assms same_counters_attempts[OF sc, of k] by simp
  from error_raises[OF this] show ?thesis using st sc by (auto simp: same_counters_def)
next
  case (TimeoutFires t thr)
  then show ?thesis using assms timeout_raises[of s k t thr] by (simp add: step_def)
next
  case (WsOpen w)
  then show ?thesis using assms
    by (auto simp: step_def getReconnectAttempts_def attempts_on_open split: if_splits)
next
  case (CloseConnection k')
  then show ?thesis using assms by (auto simp: step_def getReconnectAttempts_def split: if_splits)
next
  case CloseAllConnections
  then show ?thesis using assms attempts_fold_close[of "map fst (connections s)" s k]
    by (simp add: step_def closeAllConnections_def)
next
  case Dispose
  then show ?thesis using assms attempts_fold_close[of "map fst (connections s)" s k]
    by (simp add: step_def closeAllConnections_def dispose_def)
next
  case (ConnectToSketch n b c)
  then show ?thesis using assms by (simp add: step_def connectToSketch_def getReconnectAttempts_def)
next
  case (ConnectToServer b c)
  then show ?thesis using assms by (simp add: step_def connectToServer_def getReconnectAttempts_def)
next
  case (SendMessage k' ty pl u n)
  then show ?thesis using assms by (simp add: step_def getReconnectAttempts_def)
next
  case (WsMessage w d)
  then show ?thesis using assms by (simp add: step_def getReconnectAttempts_def split: if_splits)
next
  case (PeerClosing w)
  then show ?thesis using assms by (simp add: step_def split: if_splits)
next
  case (HeartbeatFires t u n)
  then show ?thesis using assms by (simp add: step_def getReconnectAttempts_def)
qed

lemma raise_schedules:
  assumes "getReconnectAttempts s k < getReconnectAttempts (step e s) k"
  shows "getReconnectAttempts (step e s) k = Suc (getReconnectAttempts s k)"
    and "int (getReconnectAttempts s k) < maxReconnectAttempts (config s)"
    and "last (armed (step e s)) =
           \<lparr>timer_id = timer_count s,
             delay = min (reconnectInterval (config s)
                           * reconnectBackoffMultiplier (config s) ^ getReconnectAttempts s k)
                         (maxReconnectInterval (config s)),
             callback = ReconnectTimer k (Suc (getReconnectAttempts s k))\<rparr>"
proof -
  from raise_is_reconnection[OF assms] obtain k' s1
    where st: "step e s = handleReconnection k' s1" and sc: "same_counters s1 s" by blast
  have a: "getReconnectAttempts s1 k = getReconnectAttempts s k"
    using sc by (rule same_counters_attempts)
  have r: "getReconnectAttempts s1 k < getReconnectAttempts (handleReconnection k' s1) k"
    using assms st a by simp
  note h = handleReconnection_raises[OF r]
  note sch = handleReconnection_schedules[OF h(2)]
  have c: "config s1 = config s" "timer_count s1 = timer_count s"
    using sc by (simp_all add: same_counters_def)
  show "getReconnectAttempts (step e s) k = Suc (getReconnectAttempts s k)"
    using sch(2) by (simp add: st h(1) a)
  show "int (getReconnectAttempts s k) < maxReconnectAttempts (config s)"
    using h(2) by (simp add: a c)
  show "last (armed (step e s)) =
           \<lparr>timer_id = timer_count s,
             delay = min (reconnectInterval (config s)
                           * reconnectBackoffMultiplier (config s) ^ getReconnectAttempts s k)
                         (maxReconnectInterval (config s)),
             callback = ReconnectTimer k (Suc (getReconnectAttempts s k))\<rparr>"
    using sch(1) by (simp add: st h(1) a c)
qed


lemma failures_schedule:
  assumes "\<forall>c \<in> set cs. fst c \<noteq> 1000"
      and "cs \<noteq> []"
      and "n = getReconnectAttempts s k + length cs"
      and "int n \<le> maxReconnectAttempts (config s)"
  shows "last (armed (failures k cs s)) =
           \<lparr>timer_id = timer_count (failures k (butlast cs) s),
             delay = min (reconnectInterval (config s) * reconnectBackoffMultiplier (config s) ^ (n - 1))
                         (maxReconnectInterval (config s)),
             callback = ReconnectTimer k n\<rparr>"
    and "getReconnectAttempts (failures k cs s) k = n"
proof -
  obtain cs' cd r where cs: "cs = cs' @ [(cd, r)]"
    using assms(2) by (metis rev_exhaust surj_pair)
  let ?t = "failures k cs' s"
  have cd: "cd \<noteq> 1000" using assms(1) cs by simp
  have "\<forall>c \<in> set cs'. fst c \<noteq> 1000" using assms(1) cs by simp
  moreover have "int (getReconnectAttempts s k + length cs') \<le> maxReconnectAttempts (config s)"
    using assms(3,4) cs by simp
  ultimately have a: "getReconnectAttempts ?t k = getReconnectAttempts s k + length cs'"
    by (rule failures_attempts)
  have n: "n = Suc (getReconnectAttempts ?t k)" using a assms(3) cs by simp
  have lt: "int (getReconnectAttempts ?t k) < maxReconnectAttempts (config ?t)"
    using assms(4) unfolding n by simp
  have bl: "butlast cs = cs'" using cs by simp
  from handleConnectionClose_schedules(1)[OF cd lt, of r]
  show "last (armed (failures k cs s)) =
           \<lparr>timer_id = timer_count (failures k (butlast cs) s),
             delay = min (reconnectInterval (config s) * reconnectBackoffMultiplier (config s) ^ (n - 1))
                         (maxReconnectInterval (config s)),
             callback = ReconnectTimer k n\<rparr>"
    unfolding n bl by (simp add: cs failures_snoc)
  from handleConnectionClose_schedules(2)[OF cd lt, of r]
  show "getReconnectAttempts (failures k cs s) k = n"
    unfolding n by (simp add: cs failures_snoc)
qed

text \<open>
  Claim C3, as amended. On every path that schedules a reconnection: whenever an event
  raises the attempts counter of a key, it raises it by one, from \<open>a\<close> to \<open>a + 1\<close>,
  below \<^verbatim>\<open>maxReconnectAttempts\<close>, and the timer armed last is the reconnect timer of
  that key for retry attempt \<open>a + 1\<close>, with delay \<open>min (reconnectInterval *
  reconnectBackoffMultiplier ^ a) maxReconnectInterval\<close>. For consecutive failures that
  are each reported by an abnormal close, the attempt is the number of the failure: after
  a run \<open>cs\<close> of such closes that stays within the maximum the counter is \<open>n\<close>, the
  counter before plus the length of the run, and the timer armed last is the one for
  attempt \<open>n\<close> with exponent \<open>n - 1\<close>. An open event sets the counter of its key to
  0, and the counter of a key gets smaller through no event other than an open of a
  socket of that key or the release of the key's state by \<^verbatim>\<open>closeConnection\<close>,
  \<^verbatim>\<open>closeAllConnections\<close> or \<^verbatim>\<open>dispose\<close>.
\<close>

theorem backoff_schedule_and_counter_reset:
  "(\<forall>e k. getReconnectAttempts s k < getReconnectAttempts (step e s) k \<longrightarrow>
        getReconnectAttempts (step e s) k = Suc (getReconnectAttempts s k)
        \<and> int (getReconnectAttempts s k) < maxReconnectAttempts (config s)
        \<and> last (armed (step e s)) =
            \<lparr>timer_id = timer_count s,
              delay = min (reconnectInterval (config s)
                            * reconnectBackoffMultiplier (config s) ^ getReconnectAttempts s k)
                          (maxReconnectInterval (config s)),
              callback = ReconnectTimer k (Suc (getReconnectAttempts s k))\<rparr>)
   \<and> (\<forall>cs k n. (\<forall>c \<in> set cs. fst c \<noteq> 1000) \<and> cs \<noteq> []
                \<and> n = getReconnectAttempts s k + length cs
                \<and> int n \<le> maxReconnectAttempts (config s) \<longrightarrow>
        getReconnectAttempts (failures k cs s) k = n
        \<and> last (armed (failures k cs s)) =
            \<lparr>timer_id = timer_count (failures k (butlast cs) s),
              delay = min (reconnectInterval (config s) * reconnectBackoffMultiplier (config s) ^ (n - 1))
                          (maxReconnectInterval (config s)),
              callback = ReconnectTimer k n\<rparr>)
   \<and> (\<forall>w. w < length (sockets s) \<longrightarrow>
          getReconnectAttempts (on_open w s) (owner (sockets s ! w)) = 0)
   \<and> (\<forall>e k. getReconnectAttempts (step e s) k < getReconnectAttempts s k \<longrightarrow>
          (\<exists>w. e = WsOpen w \<and> w < length (sockets s) \<and> owner (sockets s ! w) = k)
          \<or> e = CloseConnection k \<or> e = CloseAllConnections \<or> e = Dispose)"
proof -
  have 1: "getReconnectAttempts (step e s) k = Suc (getReconnectAttempts s k)
        \<and> int (getReconnectAttempts s k) < maxReconnectAttempts (config s)
        \<and> last (armed (step e s)) =
            \<lparr>timer_id = timer_count s,
              delay = min (reconnectInterval (config s)
                            * reconnectBackoffMultiplier (config s) ^ getReconnectAttempts s k)
                          (maxReconnectInterval (config s)),
              callback = ReconnectTimer k (Suc (getReconnectAttempts s k))\<rparr>"
    if "getReconnectAttempts s k < getReconnectAttempts (step e s) k" for e k
    using raise_schedules[OF that] by simp
  have 2: "getReconnectAttempts (failures k cs s) k = n
        \<and> last (armed (failures k cs s)) =
            \<lparr>timer_id = timer_count (failures k (butlast cs) s),
              delay = min (reconnectInterval (config s) * reconnectBackoffMultiplier (config s) ^ (n - 1))
                          (maxReconnectInterval (config s)),
              callback = ReconnectTimer k n\<rparr>"
    if "(\<forall>c \<in> set cs. fst c \<noteq> 1000) \<and> cs \<noteq> [] \<and> n = getReconnectAttempts s k + length cs
          \<and> int n \<le> maxReconnectAttempts (config s)" for cs k n
    using that failures_schedule[of cs n s k] by blast
  have 3: "getReconnectAttempts (on_open w s) (owner (sockets s ! w)) = 0" for w
    by (simp add: getReconnectAttempts_def attempts_on_open)
  have 4: "(\<exists>w. e = WsOpen w \<and> w < length (sockets s) \<and> owner (sockets s ! w) = k)
          \<or> e = CloseConnection k \<or> e = CloseAllConnections \<or> e = Dispose"
    if "getReconnectAttempts (step e s) k < getReconnectAttempts s k" for e k
    using that by (rule attempts_step)
  show ?thesis using 1 2 3 4 by blast
qed

text \<open>The server connection, opened.\<close>

definition connected_server :: "WebSocketConfig \<Rightarrow> manager" where
  "connected_server cfg = run [ConnectToServer ''ws://localhost:8083'' (Constructed []), WsOpen 0] (new_manager cfg)"

lemma connected_server_state:
  "config (connected_server cfg) = cfg"
  "connectionStatus (connected_server cfg) = [''server'' \<mapsto> CONNECTED]"
  "reconnectAttempts (connected_server cfg) = [''server'' \<mapsto> 0]"
  "connections (connected_server cfg) = [(''server'', 0)]"
  "sockets (connected_server cfg) = [\<lparr>owner = ''server'', url = ''ws://localhost:8083/ws/server'',
      readyState = WS_OPEN, sent = [], send_throws = []\<rparr>]"
  by (simp_all add: connected_server_def step_def connectToServer_def connect_def isConnected_def
      createConnection_def new_manager_def on_open_def Let_def flushMessageQueue_def)


lemma after_error_then_close:
  "getReconnectAttempts (step (WsError 0 ''ECONNRESET'') (connected_server default_config)) ''server'' = 1"
  "getReconnectAttempts (step (WsClose 0 1006 ''abnormal'')
      (step (WsError 0 ''ECONNRESET'') (connected_server default_config))) ''server'' = 2"
  "config (step (WsError 0 ''ECONNRESET'') (connected_server default_config)) = default_config"
  by (simp_all add: step_def on_error_def on_close_def handleConnectionError_def
      handleConnectionClose_def handleReconnection_def Let_def connected_server_state
      getConnectionStatus_def getReconnectAttempts_def default_config_def)


text \<open>
  One failure of an open connection that the socket reports by \<^verbatim>\<open>'error'\<close> and then
  \<^verbatim>\<open>'close'\<close> is counted as attempts 1 and 2, with delays 1000 and 2000, as the first two
  conjuncts show; three failures reported by \<^verbatim>\<open>'close'\<close> alone are attempts 1 to 3,
  the last with delay 4000. An open brings the counter from 1 back to 0, and so does
  \<^verbatim>\<open>closeConnection\<close>.
\<close>

theorem backoff_schedule_witness:
  "getReconnectAttempts (step (WsError 0 ''ECONNRESET'') (connected_server default_config)) ''server'' = 1
   \<and> delay (last (armed (step (WsError 0 ''ECONNRESET'') (connected_server default_config)))) = 1000
   \<and> getReconnectAttempts (step (WsClose 0 1006 ''abnormal'')
        (step (WsError 0 ''ECONNRESET'') (connected_server default_config))) ''server'' = 2
   \<and> delay (last (armed (step (WsClose 0 1006 ''abnormal'')
        (step (WsError 0 ''ECONNRESET'') (connected_server default_config))))) = 2000
   \<and> delay (last (armed (failures ''server'' [(1006, ''abnormal''), (1006, ''abnormal''), (1006, ''abnormal'')]
                         (connected_server default_config)))) = 4000
   \<and> callback (last (armed (failures ''server'' [(1006, ''abnormal''), (1006, ''abnormal''), (1006, ''abnormal'')]
                         (connected_server default_config)))) = ReconnectTimer ''server'' 3
   \<and> getReconnectAttempts (failures ''server'' [(1006, ''abnormal''), (1006, ''abnormal''), (1006, ''abnormal'')]
                         (connected_server default_config)) ''server'' = 3
   \<and> getReconnectAttempts (snd (connectToServer ''ws://localhost:8083'' (Constructed [])
         (failures ''server'' [(1006, ''abnormal'')] (connected_server default_config)))) ''server'' = 1
   \<and> getReconnectAttempts (step (WsOpen 1) (snd (connectToServer ''ws://localhost:8083'' (Constructed [])
         (failures ''server'' [(1006, ''abnormal'')] (connected_server default_config))))) ''server'' = 0
   \<and> getReconnectAttempts (step (CloseConnection ''server'')
         (failures ''server'' [(1006, ''abnormal'')] (connected_server default_config))) ''server''
       < getReconnectAttempts (failures ''server'' [(1006, ''abnormal'')] (connected_server default_config)) ''server''"
proof -
  let ?cs = "[(1006, ''abnormal''), (1006, ''abnormal''), (1006, ''abnormal'')] :: (int \<times> string) list"
  let ?s = "connected_server default_config"
  let ?e1 = "WsError 0 ''ECONNRESET''"
  let ?e2 = "WsClose 0 1006 ''abnormal''"
  let ?s' = "snd (connectToServer ''ws://localhost:8083'' (Constructed []) (failures ''server'' [(1006, ''abnormal'')] ?s))"
  have a0: "getReconnectAttempts ?s ''server'' = 0"
    by (simp add: getReconnectAttempts_def connected_server_state)
  \<comment> \<open>the error, then the close, of the open socket\<close>
  have r1: "getReconnectAttempts ?s ''server'' < getReconnectAttempts (step ?e1 ?s) ''server''"
    by (simp add: a0 after_error_then_close)
  have "last (armed (step ?e1 ?s)) =
            \<lparr>timer_id = timer_count ?s,
              delay = min (reconnectInterval (config ?s)
                            * reconnectBackoffMultiplier (config ?s) ^ getReconnectAttempts ?s ''server'')
                          (maxReconnectInterval (config ?s)),
              callback = ReconnectTimer ''server'' (Suc (getReconnectAttempts ?s ''server''))\<rparr>"
    using backoff_schedule_and_counter_reset[of ?s] r1 by blast
  then have "delay (last (armed (step ?e1 ?s))) =
               min (reconnectInterval default_config * reconnectBackoffMultiplier default_config ^ 0)
                   (maxReconnectInterval default_config)"
    by (simp add: a0 connected_server_state)
  then have d1: "delay (last (armed (step ?e1 ?s))) = 1000"
    by (simp add: default_config_def)
  have r2: "getReconnectAttempts (step ?e1 ?s) ''server''
              < getReconnectAttempts (step ?e2 (step ?e1 ?s)) ''server''"
    by (simp add: after_error_then_close)
  have "last (armed (step ?e2 (step ?e1 ?s))) =
            \<lparr>timer_id = timer_count (step ?e1 ?s),
              delay = min (reconnectInterval (config (step ?e1 ?s))
                            * reconnectBackoffMultiplier (config (step ?e1 ?s))
                              ^ getReconnectAttempts (step ?e1 ?s) ''server'')
                          (maxReconnectInterval (config (step ?e1 ?s))),
              callback = ReconnectTimer ''server'' (Suc (getReconnectAttempts (step ?e1 ?s) ''server''))\<rparr>"
    using backoff_schedule_and_counter_reset[of "step ?e1 ?s"] r2 by blast
  then have "delay (last (armed (step ?e2 (step ?e1 ?s)))) =
               min (reconnectInterval default_config * reconnectBackoffMultiplier default_config ^ 1)
                   (maxReconnectInterval default_config)"
    by (simp add: after_error_then_close connected_server_state)
  then have d2: "delay (last (armed (step ?e2 (step ?e1 ?s)))) = 2000"
    by (simp add: default_config_def)
  \<comment> \<open>three failures reported by close alone\<close>
  have h: "(\<forall>c \<in> set ?cs. fst c \<noteq> 1000) \<and> ?cs \<noteq> []
             \<and> 3 = getReconnectAttempts ?s ''server'' + length ?cs
             \<and> int 3 \<le> maxReconnectAttempts (config ?s)"
  proof -
    have "int 3 \<le> maxReconnectAttempts (config ?s)"
      by (simp add: connected_server_state default_config_def)
    then show ?thesis by (simp add: a0)
  qed
  have "getReconnectAttempts (failures ''server'' ?cs ?s) ''server'' = 3
        \<and> last (armed (failures ''server'' ?cs ?s)) =
           \<lparr>timer_id = timer_count (failures ''server'' (butlast ?cs) ?s),
             delay = min (reconnectInterval (config ?s) * reconnectBackoffMultiplier (config ?s) ^ (3 - 1))
                         (maxReconnectInterval (config ?s)),
             callback = ReconnectTimer ''server'' 3\<rparr>"
    using backoff_schedule_and_counter_reset[of ?s] h by blast
  then have g: "getReconnectAttempts (failures ''server'' ?cs ?s) ''server'' = 3"
    and d3: "delay (last (armed (failures ''server'' ?cs ?s))) = 4000"
    and c3: "callback (last (armed (failures ''server'' ?cs ?s))) = ReconnectTimer ''server'' 3"
    by (simp_all add: connected_server_state default_config_def)
  \<comment> \<open>an open brings the counter back\<close>
  have sk: "length (sockets ?s') = 2" "owner (sockets ?s' ! 1) = ''server''"
    "readyState (sockets ?s' ! 1) = WS_CONNECTING"
    by (simp_all add: connectToServer_def connect_def isConnected_def createConnection_def Let_def
        handleConnectionClose_def handleReconnection_def connected_server_state
        getReconnectAttempts_def default_config_def)
  have one: "getReconnectAttempts ?s' ''server'' = 1"
    by (simp add: connectToServer_def connect_def isConnected_def createConnection_def Let_def
        handleConnectionClose_def handleReconnection_def connected_server_state
        getReconnectAttempts_def default_config_def)
  have "getReconnectAttempts (on_open 1 ?s') (owner (sockets ?s' ! 1)) = 0"
    using backoff_schedule_and_counter_reset[of ?s'] sk(1) by simp
  then have o: "getReconnectAttempts (step (WsOpen 1) ?s') ''server'' = 0"
    using sk by (simp add: step_def)
  \<comment> \<open>and so does closeConnection\<close>
  let ?f = "failures ''server'' [(1006, ''abnormal'')] ?s"
  have f1: "getReconnectAttempts ?f ''server'' = 1"
    by (simp add: handleConnectionClose_def handleReconnection_def Let_def connected_server_state
        getReconnectAttempts_def default_config_def)
  have f0: "getReconnectAttempts (step (CloseConnection ''server'') ?f) ''server'' = 0"
    by (simp add: step_def getReconnectAttempts_def)
  have lo: "getReconnectAttempts (step (CloseConnection ''server'') ?f) ''server''
              < getReconnectAttempts ?f ''server''"
    using f0 f1 by simp
  have "(\<exists>w. CloseConnection ''server'' = WsOpen w \<and> w < length (sockets ?f)
              \<and> owner (sockets ?f ! w) = ''server'')
        \<or> CloseConnection ''server'' = CloseConnection ''server''
        \<or> CloseConnection ''server'' = CloseAllConnections \<or> CloseConnection ''server'' = Dispose"
    using backoff_schedule_and_counter_reset[of ?f] lo by blast
  show ?thesis
    using after_error_then_close(1,2) d1 d2 d3 c3 g one o lo by simp
qed

text \<open>
  Claim C3 as stated fails in its last part: after one failure the counter is 1, and
  \<^verbatim>\<open>closeConnection\<close>, which deletes the counter's entry, brings it back to 0 with no
  open event.
\<close>

theorem counter_reset_by_close_counterexample:
  "getReconnectAttempts (run [ConnectToServer ''ws://localhost:8083'' (Constructed []), WsOpen 0, WsClose 0 1006 ''abnormal'']
      (new_manager default_config)) ''server'' = 1
   \<and> getReconnectAttempts (run [ConnectToServer ''ws://localhost:8083'' (Constructed []), WsOpen 0, WsClose 0 1006 ''abnormal'',
        CloseConnection ''server''] (new_manager default_config)) ''server'' = 0"
proof -
  let ?c = "connected_server default_config"
  have r1: "run [ConnectToServer ''ws://localhost:8083'' (Constructed []), WsOpen 0, WsClose 0 1006 ''abnormal'']
              (new_manager default_config) = step (WsClose 0 1006 ''abnormal'') ?c"
    by (simp add: connected_server_def)
  have r2: "run [ConnectToServer ''ws://localhost:8083'' (Constructed []), WsOpen 0, WsClose 0 1006 ''abnormal'',
                 CloseConnection ''server''] (new_manager default_config)
            = closeConnection ''server'' (step (WsClose 0 1006 ''abnormal'') ?c)"
    by (simp add: connected_server_def step_def[of "CloseConnection ''server''"])
  have c1: "step (WsClose 0 1006 ''abnormal'') ?c = on_close 0 1006 ''abnormal'' ?c"
    by (simp add: step_def connected_server_state)
  have c: "getReconnectAttempts ?c ''server'' = 0"
    by (simp add: getReconnectAttempts_def connected_server_state)
  have 1: "getReconnectAttempts (on_close 0 1006 ''abnormal'' ?c) ''server'' = 1"
    using handleConnectionClose_schedules(2)[of 1006
        "console (Log_closed ''server'' 1006 ''abnormal'') (set_readyState 0 WS_CLOSED ?c)"
        "''server''" "''abnormal''"] c
    by (simp add: on_close_def Let_def connected_server_state default_config_def)
  have 2: "getReconnectAttempts (closeConnection ''server'' (on_close 0 1006 ''abnormal'' ?c)) ''server'' = 0"
    by (simp add: getReconnectAttempts_def)
  show ?thesis
    unfolding r1 r2 c1 using 1 2 by simp
qed



subsection \<open>Claim C4: what happens when the attempts are used up\<close>

text \<open>The delays of the reconnections logged in a trace, in order.\<close>

fun reconnect_delays :: "effect list \<Rightarrow> int list" where
  "reconnect_delays [] = []"
| "reconnect_delays (Console (Log_reconnecting k d a m) # t) = d # reconnect_delays t"
| "reconnect_delays (e # t) = reconnect_delays t"

definition three_attempts :: WebSocketConfig where
  "three_attempts = default_config\<lparr>maxReconnectAttempts := 3\<rparr>"

text \<open>
  The connection opens and is closed abnormally. Three times the reconnect timer fires,
  the owner of the manager answers \<^verbatim>\<open>'reconnectRequested'\<close> with a new
  \<^verbatim>\<open>connectToServer\<close>, and the new socket fails: \<^verbatim>\<open>'error'\<close>, then \<^verbatim>\<open>'close'\<close> with
  code 1006. (Timers 2, 4 and 6 are the reconnect timers.)
\<close>

definition four_failures :: manager where
  "four_failures =
     run [ConnectToServer ''ws://localhost:8083'' (Constructed []), WsOpen 0, WsClose 0 1006 ''abnormal'',
          TimeoutFires 2 False, ConnectToServer ''ws://localhost:8083'' (Constructed []),
          WsError 1 ''ECONNREFUSED'', WsClose 1 1006 ''abnormal'',
          TimeoutFires 4 False, ConnectToServer ''ws://localhost:8083'' (Constructed []),
          WsError 2 ''ECONNREFUSED'', WsClose 2 1006 ''abnormal'',
          TimeoutFires 6 False, ConnectToServer ''ws://localhost:8083'' (Constructed []),
          WsError 3 ''ECONNREFUSED'', WsClose 3 1006 ''abnormal'']
       (new_manager three_attempts)"

text \<open>
  Claim C4 on the code, with \<^verbatim>\<open>maxReconnectAttempts = 3\<close>, base 1000 and multiplier 2.
  The delays are 1000, 2000 and 4000. The fourth close finds the counter at its maximum
  in \<^verbatim>\<open>handleConnectionClose\<close>, which sets the status to Disconnected and emits
  \<^verbatim>\<open>'disconnected'\<close>; \<^verbatim>\<open>handleReconnection\<close>, whose branch for that case sets Failed
  and emits \<^verbatim>\<open>'connectionFailed'\<close> with the attempt count, is not called. No further
  reconnection is scheduled.
\<close>

theorem exhausted_retries_end_disconnected:
  "getConnectionStatus four_failures ''server'' = DISCONNECTED
   \<and> reconnect_delays (trace four_failures) = [1000, 2000, 4000]
   \<and> reconnectTimers four_failures ''server'' = None
   \<and> notifications (trace four_failures) =
       [StatusChanged ''server'' CONNECTING, StatusChanged ''server'' CONNECTED,
        ConnectedEvt ''server'' ''ws://localhost:8083/ws/server'',
        StatusChanged ''server'' RECONNECTING, ReconnectRequested ''server'' 1,
        StatusChanged ''server'' CONNECTING, SocketErrorEvt ''server'' ''ECONNREFUSED'',
        StatusChanged ''server'' RECONNECTING, ReconnectRequested ''server'' 2,
        StatusChanged ''server'' CONNECTING, SocketErrorEvt ''server'' ''ECONNREFUSED'',
        StatusChanged ''server'' RECONNECTING, ReconnectRequested ''server'' 3,
        StatusChanged ''server'' CONNECTING, SocketErrorEvt ''server'' ''ECONNREFUSED'',
        StatusChanged ''server'' DISCONNECTED, DisconnectedEvt ''server'' 1006 ''abnormal'']"
  by (simp add: four_failures_def three_attempts_def default_config_def new_manager_def step_def
      connectToServer_def connect_def isConnected_def createConnection_def on_open_def on_close_def
      on_error_def handleConnectionError_def timeout_fires_def
      handleConnectionClose_def handleReconnection_def flushMessageQueue_def Let_def
      getConnectionStatus_def getReconnectAttempts_def notifications_def socket_open_def
      stopHeartbeat_def startHeartbeat_def set_timer_def clear_timer_def set_readyState_def
      setConnectionStatus_def emit_def console_def)

text \<open>
  This is no accident of the example. With at least one attempt allowed, and as long as
  no listener of \<^verbatim>\<open>'reconnectRequested'\<close> throws, no sequence of operations and events
  brings a key to the status Failed or emits \<^verbatim>\<open>'connectionFailed'\<close>:
  \<^verbatim>\<open>handleReconnection\<close> is entered from a close only below the maximum, and from an
  error only in the status Connected, where the counter is 0. The one way left to Failed
  is the \<^verbatim>\<open>catch\<close> of the reconnect timer.
\<close>

fun has_throwing_listener :: "event \<Rightarrow> bool" where
  "has_throwing_listener (TimeoutFires t thr) = thr"
| "has_throwing_listener e = False"

definition retrying_sound :: "manager \<Rightarrow> bool" where
  "retrying_sound s \<longleftrightarrow>
     1 \<le> maxReconnectAttempts (config s)
     \<and> (\<forall>k. connectionStatus s k = Some CONNECTED \<longrightarrow> getReconnectAttempts s k = 0)
     \<and> (\<forall>k. connectionStatus s k \<noteq> Some FAILED)
     \<and> (\<forall>k n. Emit (ConnectionFailed k n) \<notin> set (trace s))"

lemma retrying_sound_same:
  assumes "retrying_sound s" "config s' = config s" "connectionStatus s' = connectionStatus s"
    "reconnectAttempts s' = reconnectAttempts s"
    "\<forall>k n. Emit (ConnectionFailed k n) \<in> set (trace s') \<longrightarrow> Emit (ConnectionFailed k n) \<in> set (trace s)"
  shows "retrying_sound s'"
  using assms by (simp add: retrying_sound_def getReconnectAttempts_def)

lemma retrying_sound_handleReconnection:
  assumes "retrying_sound s" "int (getReconnectAttempts s k) < maxReconnectAttempts (config s)"
  shows "retrying_sound (handleReconnection k s)"
  using assms
  by (auto simp: retrying_sound_def handleReconnection_def Let_def getReconnectAttempts_def)

lemma retrying_sound_handleConnectionClose:
  assumes "retrying_sound s"
  shows "retrying_sound (handleConnectionClose k cd r s)"
proof -
  let ?s1 = "stopHeartbeat k (s\<lparr>connections := AList.delete k (connections s)\<rparr>)"
  have s1: "retrying_sound ?s1"
    using assms by (rule retrying_sound_same) simp_all
  show ?thesis
  proof (cases "cd = 1000 \<or> int (getReconnectAttempts ?s1 k) \<ge> maxReconnectAttempts (config ?s1)")
    case True
    then have "handleConnectionClose k cd r s
                 = emit (DisconnectedEvt k cd r) (setConnectionStatus k DISCONNECTED ?s1)"
      by (simp add: handleConnectionClose_def Let_def)
    then show ?thesis using s1 by (auto simp: retrying_sound_def getReconnectAttempts_def)
  next
    case False
    then have "handleConnectionClose k cd r s = handleReconnection k ?s1"
      by (simp add: handleConnectionClose_def Let_def)
    then show ?thesis using s1 False by (simp add: retrying_sound_handleReconnection)
  qed
qed

lemma retrying_sound_handleConnectionError:
  assumes "retrying_sound s"
  shows "retrying_sound (handleConnectionError k em s)"
proof -
  let ?s1 = "emit (SocketErrorEvt k em) s"
  have s1: "retrying_sound ?s1" using assms by (rule retrying_sound_same) simp_all
  show ?thesis
  proof (cases "getConnectionStatus ?s1 k = CONNECTED")
    case True
    then have "connectionStatus ?s1 k = Some CONNECTED"
      by (simp add: getConnectionStatus_def split: option.splits)
    then have "int (getReconnectAttempts ?s1 k) < maxReconnectAttempts (config ?s1)"
      using s1 unfolding retrying_sound_def by auto
    then show ?thesis using s1 True
      by (simp add: handleConnectionError_def Let_def retrying_sound_handleReconnection)
  next
    case False
    then show ?thesis using s1 by (simp add: handleConnectionError_def Let_def)
  qed
qed


lemma retrying_sound_createConnection:
  "retrying_sound s \<Longrightarrow> retrying_sound (snd (createConnection k u c s))"
  by (auto simp: retrying_sound_def createConnection_def Let_def getReconnectAttempts_def
        split: construction.splits)

lemma retrying_sound_connect:
  "retrying_sound s \<Longrightarrow> retrying_sound (snd (connect k u c s))"
  by (auto simp: connect_def retrying_sound_createConnection split: option.splits)

lemma retrying_sound_queueMessage:
  "retrying_sound s \<Longrightarrow> retrying_sound (queueMessage k m s)"
  by (simp add: retrying_sound_def queueMessage_def Let_def getReconnectAttempts_def)

lemma retrying_sound_sendMessage:
  "retrying_sound s \<Longrightarrow> retrying_sound (snd (sendMessage k ty pl u n s))"
  by (auto simp: retrying_sound_def sendMessage_def queueMessage_def Let_def getReconnectAttempts_def
        split: option.splits prod.splits bool.splits)

lemma retrying_sound_flush:
  "retrying_sound s \<Longrightarrow> retrying_sound (flushMessageQueue k s)"
  by (auto simp: retrying_sound_def flushMessageQueue_def Let_def getReconnectAttempts_def
        split: option.splits prod.splits)

lemma retrying_sound_on_open:
  assumes "retrying_sound s" shows "retrying_sound (on_open w s)"
proof -
  let ?k = "owner (sockets s ! w)"
  let ?s3 = "startHeartbeat ?k
             ((setConnectionStatus ?k CONNECTED (console (Log_connected ?k) (set_readyState w WS_OPEN s)))
               \<lparr>connections := AList.update ?k w (connections s),
                 reconnectAttempts := (reconnectAttempts s)(?k \<mapsto> 0)\<rparr>)"
  have "retrying_sound ?s3"
    using assms by (auto simp: retrying_sound_def getReconnectAttempts_def)
  then have "retrying_sound (flushMessageQueue ?k ?s3)" by (rule retrying_sound_flush)
  then have "retrying_sound (emit (ConnectedEvt ?k (url (sockets s ! w))) (flushMessageQueue ?k ?s3))"
    by (auto simp: retrying_sound_def getReconnectAttempts_def)
  then show ?thesis by (simp add: on_open_def Let_def)
qed

lemma retrying_sound_on_message:
  "retrying_sound s \<Longrightarrow> retrying_sound (on_message k d s)"
  by (auto simp: retrying_sound_def on_message_def handleMessage_def getReconnectAttempts_def
        split: inbound.splits option.splits sum.splits if_splits)

lemma retrying_sound_on_close:
  "retrying_sound s \<Longrightarrow> retrying_sound (on_close w cd r s)"
proof -
  assume a: "retrying_sound s"
  let ?k = "owner (sockets s ! w)"
  have "retrying_sound (console (Log_closed ?k cd r) (set_readyState w WS_CLOSED s))"
    using a by (rule retrying_sound_same) simp_all
  then show ?thesis by (simp add: on_close_def Let_def retrying_sound_handleConnectionClose)
qed

lemma retrying_sound_on_error:
  "retrying_sound s \<Longrightarrow> retrying_sound (on_error w em s)"
proof -
  assume a: "retrying_sound s"
  let ?k = "owner (sockets s ! w)"
  have "retrying_sound (console (Error_socket ?k em) s)"
    using a by (rule retrying_sound_same) simp_all
  then show ?thesis by (simp add: on_error_def Let_def retrying_sound_handleConnectionError)
qed

lemma retrying_sound_timeout_fires:
  "retrying_sound s \<Longrightarrow> retrying_sound (timeout_fires t False s)"
  by (auto simp: retrying_sound_def timeout_fires_def Let_def getReconnectAttempts_def
        split: option.splits timer_callback.splits)

lemma retrying_sound_heartbeat_fires:
  "retrying_sound s \<Longrightarrow> retrying_sound (heartbeat_fires t u n s)"
  by (auto simp: retrying_sound_def heartbeat_fires_def Let_def getReconnectAttempts_def
        stopHeartbeat_def split: option.splits timer_callback.splits prod.splits bool.splits)

lemma cleanup_status_trace [simp]:
  "connectionStatus (cleanup k s) = (connectionStatus s)(k := None)"
  "trace (cleanup k s) = trace s"
  by (simp_all add: cleanup_def Let_def split: option.splits)

lemma retrying_sound_closeConnection:
  "retrying_sound s \<Longrightarrow> retrying_sound (closeConnection k s)"
  by (auto simp: retrying_sound_def closeConnection_def getReconnectAttempts_def split: option.splits)

lemma retrying_sound_fold_close:
  "retrying_sound s \<Longrightarrow> retrying_sound (fold closeConnection ks s)"
  by (induction ks arbitrary: s) (simp_all add: retrying_sound_closeConnection)

lemma retrying_sound_step:
  assumes "retrying_sound s" "\<not> has_throwing_listener e" shows "retrying_sound (step e s)"
proof (cases e)
  case (PeerClosing w)
  have "retrying_sound (set_readyState w WS_CLOSING s)"
    using assms(1) by (rule retrying_sound_same) simp_all
  then show ?thesis using PeerClosing assms(1) by (simp add: step_def)
qed (use assms in \<open>simp_all add: step_def connectToSketch_def connectToServer_def
      closeAllConnections_def dispose_def retrying_sound_connect retrying_sound_sendMessage
      retrying_sound_closeConnection retrying_sound_fold_close retrying_sound_on_open
      retrying_sound_on_message retrying_sound_on_close retrying_sound_on_error
      retrying_sound_timeout_fires retrying_sound_heartbeat_fires\<close>)

lemma retrying_sound_run:
  "retrying_sound s \<Longrightarrow> \<forall>e \<in> set es. \<not> has_throwing_listener e \<Longrightarrow> retrying_sound (run es s)"
  by (induction es arbitrary: s) (simp_all add: retrying_sound_step)

lemma failed_is_unreachable:
  assumes "1 \<le> maxReconnectAttempts cfg" and "\<forall>e \<in> set es. \<not> has_throwing_listener e"
  shows "getConnectionStatus (run es (new_manager cfg)) k \<noteq> FAILED
         \<and> Emit (ConnectionFailed k n) \<notin> set (trace (run es (new_manager cfg)))"
proof -
  have "retrying_sound (new_manager cfg)"
    using assms(1) by (simp add: retrying_sound_def new_manager_def)
  then have "retrying_sound (run es (new_manager cfg))" using assms(2) by (simp add: retrying_sound_run)
  then show ?thesis
    by (auto simp: retrying_sound_def getConnectionStatus_def split: option.splits)
qed


end
